theory Spec2Isabelle
  imports Complex_Main "HOL-Library.Word" "HOL-Library.AList" "HOL-Library.Char_ord"
    "HOL-Library.List_Lexorder"
begin

unbundle bit_operations_syntax

section \<open>Python values and errors\<close>

text \<open>
  A Python \<open>float\<close>. \<open>Finite q\<close> stands for the double nearest to the rational \<open>q\<close>: the
  model keeps the exact decimal value and leaves rounding out. Nothing in the pipeline
  compares two floats.
\<close>

datatype pyfloat = Finite rat | PosInf | NegInf | NaN

text \<open>
  The values \<open>json.load\<close> and \<open>Response.json()\<close> return, which are also the values the
  pipeline stores in tags and fields. An object is an association list in insertion order;
  a Python dict has no duplicate keys. A character is a code point below 256.
\<close>

datatype json =
    JNull
  | JBool bool
  | JInt int
  | JFloat pyfloat
  | JStr string
  | JArr "json list"
  | JObj "(string \<times> json) list"

text \<open>
  The exceptions the pipeline can raise. A \<open>RuntimeError\<close> carries the reason the
  source formats into its message; \<open>RequestException\<close> is whatever the HTTP layer raises
  (connection failure, timeout, error status, undecodable body).
\<close>

datatype rt_reason =
    MissingApiKey
  | FindPlacesException json
  | ForecastException json
  | MissingInfluxConfig

datatype py_error =
    RuntimeError rt_reason
  | ValueError
  | TypeError
  | AttributeError
  | OverflowError
  | RequestException

definition bind_err :: "'e + 'a \<Rightarrow> ('a \<Rightarrow> 'e + 'b) \<Rightarrow> 'e + 'b" where
  "bind_err m f = (case m of Inl e \<Rightarrow> Inl e | Inr x \<Rightarrow> f x)"

text \<open>A \<open>for\<close> loop that extends a result list and stops at the first exception.\<close>

fun concat_map_err :: "('a \<Rightarrow> 'e + 'b list) \<Rightarrow> 'a list \<Rightarrow> 'e + 'b list" where
  "concat_map_err f [] = Inr []"
| "concat_map_err f (x # xs) =
     bind_err (f x) (\<lambda>ys. bind_err (concat_map_err f xs) (\<lambda>zs. Inr (ys @ zs)))"

text \<open>Truth value testing: \<open>None\<close>, \<open>False\<close>, zero and empty containers are false.\<close>

fun truthy :: "json \<Rightarrow> bool" where
  "truthy JNull = False"
| "truthy (JBool b) = b"
| "truthy (JInt i) = (i \<noteq> 0)"
| "truthy (JFloat f) = (f \<noteq> Finite 0)"
| "truthy (JStr s) = (s \<noteq> [])"
| "truthy (JArr xs) = (xs \<noteq> [])"
| "truthy (JObj kvs) = (kvs \<noteq> [])"

definition py_or :: "json \<Rightarrow> json \<Rightarrow> json" where
  "py_or a b = (if truthy a then a else b)"

text \<open>\<open>x.get(key)\<close>: \<open>None\<close> for a missing key, \<open>AttributeError\<close> when \<open>x\<close> is not a dict.\<close>

fun py_get :: "json \<Rightarrow> string \<Rightarrow> py_error + json" where
  "py_get (JObj kvs) k = Inr (case map_of kvs k of None \<Rightarrow> JNull | Some v \<Rightarrow> v)"
| "py_get _ k = Inl AttributeError"

text \<open>\<open>key in x\<close> as the source uses it, on the result of \<open>isinstance(x, dict)\<close>.\<close>

fun dict_has_key :: "json \<Rightarrow> string \<Rightarrow> bool" where
  "dict_has_key (JObj kvs) k = (k \<in> fst ` set kvs)"
| "dict_has_key _ k = False"

text \<open>
  \<open>for x in v\<close>: a list yields its elements, a string its characters, a dict its keys;
  anything else is not iterable.
\<close>

fun py_iter :: "json \<Rightarrow> py_error + json list" where
  "py_iter (JArr xs) = Inr xs"
| "py_iter (JStr s) = Inr (map (\<lambda>c. JStr [c]) s)"
| "py_iter (JObj kvs) = Inr (map (\<lambda>kv. JStr (fst kv)) kvs)"
| "py_iter _ = Inl TypeError"

section \<open>Strings\<close>

text \<open>\<open>str.isspace\<close>, \<open>str.strip\<close> and \<open>str.lower\<close> on code points below 256.\<close>

definition py_isspace :: "char \<Rightarrow> bool" where
  "py_isspace c = ((of_char c :: nat) \<in> {9, 10, 11, 12, 13, 28, 29, 30, 31, 32, 133, 160})"

definition py_strip :: "string \<Rightarrow> string" where
  "py_strip s = rev (dropWhile py_isspace (rev (dropWhile py_isspace s)))"

definition py_lower_char :: "char \<Rightarrow> char" where
  "py_lower_char c =
     (let n = (of_char c :: nat)
      in if (65 \<le> n \<and> n \<le> 90) \<or> (192 \<le> n \<and> n \<le> 222 \<and> n \<noteq> 215)
         then char_of (n + 32) else c)"

definition py_lower :: "string \<Rightarrow> string" where
  "py_lower s = map py_lower_char s"

text \<open>
  \<^verbatim>\<open>
  def normalize_query(q):
      return q.strip().lower()
  \<close>
\<close>

definition normalize_query :: "string \<Rightarrow> string" where
  "normalize_query q = py_lower (py_strip q)"

text \<open>The same call on a value of unknown type: only a \<open>str\<close> has \<open>strip\<close>.\<close>

fun strip_value :: "json \<Rightarrow> py_error + string" where
  "strip_value (JStr s) = Inr (py_strip s)"
| "strip_value _ = Inl AttributeError"

fun normalize_value :: "json \<Rightarrow> py_error + string" where
  "normalize_value (JStr s) = Inr (normalize_query s)"
| "normalize_value _ = Inl AttributeError"

text \<open>\<open>",".join(xs)\<close>\<close>

fun join :: "string \<Rightarrow> string list \<Rightarrow> string" where
  "join sep [] = []"
| "join sep [x] = x"
| "join sep (x # y # ys) = x @ sep @ join sep (y # ys)"

text \<open>Decimal numerals, as \<open>str\<close> and \<open>json.dumps\<close> print an \<open>int\<close>.\<close>

fun digits_of :: "nat \<Rightarrow> string" where
  "digits_of n = (if n < 10 then [char_of (48 + n)]
                  else digits_of (n div 10) @ [char_of (48 + n mod 10)])"

definition int_repr :: "int \<Rightarrow> string" where
  "int_repr i = (if i < 0 then CHR ''-'' # digits_of (nat (- i)) else digits_of (nat i))"

section \<open>The built-in \<open>float\<close>\<close>

definition is_digit :: "char \<Rightarrow> bool" where
  "is_digit c = (48 \<le> (of_char c :: nat) \<and> (of_char c :: nat) \<le> 57)"

definition digits_value :: "string \<Rightarrow> nat" where
  "digits_value ds = foldl (\<lambda>acc c. 10 * acc + (of_char c - 48)) 0 ds"

text \<open>
  A string with a character outside ASCII is first rewritten: Unicode spaces become a
  blank, every other character from 127 on (none of them a decimal digit below 256) becomes
  \<open>?\<close>. A pure ASCII string is taken as it is.
\<close>

definition float_to_ascii :: "string \<Rightarrow> string" where
  "float_to_ascii s =
     (if \<forall>c \<in> set s. (of_char c :: nat) < 128 then s
      else map (\<lambda>c. if (of_char c :: nat) < 127 then c
                      else if py_isspace c then CHR '' '' else CHR ''?'') s)"

definition c_isspace :: "char \<Rightarrow> bool" where
  "c_isspace c = ((of_char c :: nat) \<in> {9, 10, 11, 12, 13, 32})"

text \<open>An underscore is allowed only between two digits.\<close>

fun underscores_ok :: "char \<Rightarrow> string \<Rightarrow> bool" where
  "underscores_ok prev [] = (prev \<noteq> CHR ''_'')"
| "underscores_ok prev (c # cs) =
     (if c = CHR ''_'' then is_digit prev \<and> underscores_ok c cs
      else (prev = CHR ''_'' \<longrightarrow> is_digit c) \<and> underscores_ok c cs)"

definition split_sign :: "string \<Rightarrow> bool \<times> string" where
  "split_sign s =
     (case s of
        c # cs \<Rightarrow> if c = CHR ''-'' then (True, cs) else if c = CHR ''+'' then (False, cs)
                  else (False, s)
      | [] \<Rightarrow> (False, s))"

text \<open>
  The exponent part \<open>e[+-]digits\<close> at the end of a number; \<open>None\<close> when what follows the
  mantissa is anything else.
\<close>

definition parse_exponent :: "string \<Rightarrow> int option" where
  "parse_exponent s =
     (case s of
        [] \<Rightarrow> Some 0
      | c # cs \<Rightarrow>
          if c = CHR ''e'' \<or> c = CHR ''E'' then
            (let (neg, ds) = split_sign cs
             in if ds \<noteq> [] \<and> list_all is_digit ds
                then Some (if neg then - int (digits_value ds) else int (digits_value ds))
                else None)
          else None)"

definition scale10 :: "rat \<Rightarrow> int \<Rightarrow> rat" where
  "scale10 q e = (if 0 \<le> e then q * 10 ^ nat e else q / 10 ^ nat (- e))"

definition parse_decimal :: "string \<Rightarrow> rat option" where
  "parse_decimal s =
     (let ip = takeWhile is_digit s;
          r1 = dropWhile is_digit s;
          fp = (case r1 of c # cs \<Rightarrow> if c = CHR ''.'' then takeWhile is_digit cs else [] | [] \<Rightarrow> []);
          r2 = (case r1 of c # cs \<Rightarrow> if c = CHR ''.'' then dropWhile is_digit cs else r1 | [] \<Rightarrow> [])
      in if ip @ fp = [] then None
         else (case parse_exponent r2 of
                 None \<Rightarrow> None
               | Some e \<Rightarrow> Some (scale10 (of_nat (digits_value (ip @ fp))) (e - int (length fp)))))"

text \<open>\<open>float(s)\<close> for a string: \<open>ValueError\<close> unless the whole string is a number.\<close>

definition float_of_string :: "string \<Rightarrow> py_error + pyfloat" where
  "float_of_string s =
     (let t = float_to_ascii s;
          u = rev (dropWhile c_isspace (rev (dropWhile c_isspace t)))
      in if \<not> underscores_ok (char_of (0::nat)) u then Inl ValueError
         else
           (let (neg, body) = split_sign (filter (\<lambda>c. c \<noteq> CHR ''_'') u);
                word = map py_lower_char body
            in if word = ''inf'' \<or> word = ''infinity'' then Inr (if neg then NegInf else PosInf)
               else if word = ''nan'' then Inr NaN
               else (case parse_decimal body of
                       None \<Rightarrow> Inl ValueError
                     | Some q \<Rightarrow> Inr (Finite (if neg then - q else q)))))"

text \<open>
  \<open>float(v)\<close>: a \<open>bool\<close> is an \<open>int\<close>; an \<open>int\<close> that rounds to \<open>2^1024\<close> or beyond is
  an \<open>OverflowError\<close>; \<open>None\<close>, lists and dicts are a \<open>TypeError\<close>.
\<close>

fun py_float :: "json \<Rightarrow> py_error + pyfloat" where
  "py_float JNull = Inl TypeError"
| "py_float (JBool b) = Inr (Finite (if b then 1 else 0))"
| "py_float (JInt i) =
     (if 2 ^ 1024 - 2 ^ 970 \<le> \<bar>i\<bar> then Inl OverflowError else Inr (Finite (of_int i)))"
| "py_float (JFloat x) = Inr x"
| "py_float (JStr s) = float_of_string s"
| "py_float (JArr xs) = Inl TypeError"
| "py_float (JObj kvs) = Inl TypeError"

text \<open>
  Library functions the source calls and the model leaves open: the ISO-8601 parser
  \<open>dateutil.parser.isoparse\<close> into a timestamp type \<open>'ts\<close>, \<open>repr\<close> of a float, list or
  dict (for \<open>str(v)\<close>), and the float formatting of \<open>json.dumps\<close>.
\<close>

record 'ts pylib =
  isoparse :: "json \<Rightarrow> py_error + 'ts"
  py_repr :: "json \<Rightarrow> string"
  float_repr :: "rat \<Rightarrow> string"

text \<open>\<open>str(v)\<close>\<close>

fun py_str :: "'ts pylib \<Rightarrow> json \<Rightarrow> string" where
  "py_str lib (JStr s) = s"
| "py_str lib JNull = ''None''"
| "py_str lib (JBool b) = (if b then ''True'' else ''False'')"
| "py_str lib (JInt i) = int_repr i"
| "py_str lib v = py_repr lib v"

section \<open>Configuration, collaborators and the world\<close>

text \<open>
  The module-level constants read from the environment. \<open>os.getenv\<close> without a default
  is \<open>None\<close> for an unset variable.
\<close>

record config =
  api_key :: "string option"
  influx_token :: "string option"
  influx_org :: string
  influx_bucket :: string

definition env_set :: "string option \<Rightarrow> bool" where
  "env_set v = (case v of None \<Rightarrow> False | Some s \<Rightarrow> s \<noteq> [])"

definition MAX_IDS_PER_REQUEST :: int where
  "MAX_IDS_PER_REQUEST = 20"

definition DEFAULT_VARIABLES :: "string list" where
  "DEFAULT_VARIABLES =
     [''temperature'', ''relative_humidity'', ''air_pressure_at_sea_level'',
      ''precipitation_amount'', ''cloud_area_fraction'', ''wind'',
      ''significative_wave_height'', ''relative_peak_period'', ''mean_wave_direction'',
      ''sea_water_temperature'']"

definition DEFAULT_PARAMS :: "(string \<times> string) list" where
  "DEFAULT_PARAMS =
     [(''lang'', ''es''), (''format'', ''application/json''),
      (''exceptionsFormat'', ''application/json'')]"

datatype endpoint = FindPlaces | Forecast

text \<open>
  A time-series point: timestamp, fields, tags, as the tuples of
  \<open>iter_timeseries_points\<close>; and the \<open>Point\<close> handed to the writer, whose tags are strings.
\<close>

type_synonym 'ts point = "'ts \<times> (string \<times> json) list \<times> (string \<times> json) list"

record 'ts influx_point =
  measurement :: string
  time :: 'ts
  ptags :: "(string \<times> string) list"
  pfields :: "(string \<times> json) list"

text \<open>
  The collaborators. \<open>http_get k url params\<close> is the outcome of the \<open>k\<close>-th HTTP request of
  the run (\<open>requests.get\<close>, \<open>raise_for_status\<close>, \<open>json()\<close>): a decoded body or an
  exception. \<open>influx_write k ps\<close> is the outcome of the \<open>k\<close>-th synchronous write: \<open>None\<close>
  when it succeeds.
\<close>

record 'ts collaborators =
  http_get :: "nat \<Rightarrow> endpoint \<Rightarrow> (string \<times> string) list \<Rightarrow> py_error + json"
  influx_write :: "nat \<Rightarrow> 'ts influx_point list \<Rightarrow> py_error option"

datatype event =
    WarnNoPlace string
  | OkPlace string string json json
  | SkipBatch string
  | OkBatch string nat nat
  | Total nat

text \<open>
  Everything a run can change outside its own variables: the requests sent, the write
  calls made, the two JSON files (\<open>None\<close>: the file does not exist) and the lines printed.
\<close>

record 'ts world =
  http_log :: "(endpoint \<times> (string \<times> string) list) list"
  influx_log :: "'ts influx_point list list"
  places_file :: "(string \<times> json) list option"
  state_file :: "(string \<times> json) list option"
  stdout :: "event list"

text \<open>\<open>load_json(path, default={})\<close>\<close>

definition load_json :: "(string \<times> json) list option \<Rightarrow> (string \<times> json) list" where
  "load_json file = (case file of None \<Rightarrow> [] | Some obj \<Rightarrow> obj)"

section \<open>ForecastTransformer: \<open>iter_timeseries_points\<close>\<close>

text \<open>
  The wind branch of the hourly loop:
  \<^verbatim>\<open>
  mv = hv.get("moduleValue")
  dv = hv.get("directionValue")
  if mv is not None:
      fields["wind_module"] = float(mv)
  if dv is not None:
      fields["wind_direction"] = float(dv)
  \<close>
  No exception of \<open>float\<close> is caught here.
\<close>

definition wind_fields :: "json \<Rightarrow> py_error + (string \<times> json) list" where
  "wind_fields hv =
     bind_err (py_get hv ''moduleValue'') (\<lambda>mv.
     bind_err (py_get hv ''directionValue'') (\<lambda>dv.
     bind_err (if mv \<noteq> JNull
               then bind_err (py_float mv) (\<lambda>x. Inr [(''wind_module'', JFloat x)])
               else Inr []) (\<lambda>fields.
     if dv \<noteq> JNull
     then bind_err (py_float dv)
            (\<lambda>y. Inr (AList.update ''wind_direction'' (JFloat y) fields))
     else Inr fields)))"

text \<open>
  The branch of every other variable:
  \<^verbatim>\<open>
  v = hv.get("value")
  if v is not None and v != "":
      try:
          fields["value"] = float(v)
      except (ValueError, TypeError):
          fields["value_str"] = str(v)
  \<close>
\<close>

definition scalar_fields :: "'ts pylib \<Rightarrow> json \<Rightarrow> py_error + (string \<times> json) list" where
  "scalar_fields lib hv =
     bind_err (py_get hv ''value'') (\<lambda>v.
     if v \<noteq> JNull \<and> v \<noteq> JStr []
     then (case py_float v of
             Inr x \<Rightarrow> Inr [(''value'', JFloat x)]
           | Inl e \<Rightarrow>
               if e = ValueError \<or> e = TypeError
               then Inr [(''value_str'', JStr (py_str lib v))]
               else Inl e)
     else Inr [])"

text \<open>
  One pass of the innermost loop: the points (none or one) the hourly value \<open>hv\<close> adds.
\<close>

definition hourly_points ::
  "'ts pylib \<Rightarrow> json \<Rightarrow> (string \<times> json) list \<Rightarrow> json \<Rightarrow> py_error + 'ts point list" where
  "hourly_points lib var_name tags hv =
     bind_err (py_get hv ''timeInstant'') (\<lambda>ti.
     if \<not> truthy ti then Inr []
     else
       bind_err (isoparse lib ti) (\<lambda>ts.
       bind_err (if var_name = JStr ''wind'' then wind_fields hv else scalar_fields lib hv)
         (\<lambda>fields0.
       bind_err (py_get hv ''modelRun'') (\<lambda>mr.
       let fields = (if truthy mr then AList.update ''model_run'' mr fields0 else fields0)
       in if fields \<noteq> [] then Inr [(ts, fields, tags)] else Inr []))))"

definition variable_points ::
  "'ts pylib \<Rightarrow> (string \<times> json) list \<Rightarrow> json \<Rightarrow> py_error + 'ts point list" where
  "variable_points lib place_tags var =
     bind_err (py_get var ''name'') (\<lambda>n.
     bind_err (py_get var ''model'') (\<lambda>m.
     bind_err (py_get var ''grid'') (\<lambda>g.
     bind_err (py_get var ''units'') (\<lambda>u.
     let var_name = py_or n (JStr []);
         tags = place_tags @
                [(''variable'', var_name), (''model'', py_or m (JStr [])),
                 (''grid'', py_or g (JStr [])), (''units'', py_or u (JStr []))]
     in bind_err (py_get var ''values'') (\<lambda>vs.
        bind_err (py_iter (py_or vs (JArr []))) (\<lambda>values.
        concat_map_err (hourly_points lib var_name tags) values))))))"

definition day_points ::
  "'ts pylib \<Rightarrow> (string \<times> json) list \<Rightarrow> json \<Rightarrow> py_error + 'ts point list" where
  "day_points lib place_tags day =
     bind_err (py_get day ''variables'') (\<lambda>vs.
     bind_err (py_iter (py_or vs (JArr []))) (\<lambda>variables.
     concat_map_err (variable_points lib place_tags) variables))"

definition iter_timeseries_points :: "'ts pylib \<Rightarrow> json \<Rightarrow> py_error + 'ts point list" where
  "iter_timeseries_points lib feature =
     bind_err (py_get feature ''properties'') (\<lambda>p.
     bind_err (py_get feature ''exception'') (\<lambda>ex.
     if truthy ex then Inr []
     else
       let props = py_or p (JObj [])
       in bind_err (py_get props ''id'') (\<lambda>i.
          bind_err (strip_value (py_or i (JStr []))) (\<lambda>place_id.
          bind_err (py_get props ''name'') (\<lambda>n.
          bind_err (py_get props ''municipality'') (\<lambda>m.
          bind_err (py_get props ''province'') (\<lambda>pr.
          bind_err (py_get props ''type'') (\<lambda>t.
          bind_err (py_get props ''days'') (\<lambda>d.
          bind_err (py_iter (py_or d (JArr []))) (\<lambda>days.
          concat_map_err
            (day_points lib
               [(''place_id'', JStr place_id), (''place_name'', py_or n (JStr [])),
                (''municipality'', py_or m (JStr [])), (''province'', py_or pr (JStr [])),
                (''type'', py_or t (JStr []))])
            days))))))))))"

section \<open>TimeSeriesWriter adapter: \<open>write_to_influx\<close>\<close>

text \<open>
  \<^verbatim>\<open>
  p = Point("forecast_hourly").time(ts, WritePrecision.S)
  for k, v in tags.items():
      p = p.tag(k, str(v or ""))
  for fk, fv in fields.items():
      p = p.field(fk, fv)
  \<close>
\<close>

definition to_influx_point :: "'ts pylib \<Rightarrow> 'ts point \<Rightarrow> 'ts influx_point" where
  "to_influx_point lib pt =
     (case pt of (ts, flds, tags) \<Rightarrow>
        \<lparr>measurement = ''forecast_hourly'', time = ts,
         ptags = map (\<lambda>(k, v). (k, py_str lib (py_or v (JStr [])))) tags,
         pfields = flds\<rparr>)"

definition write_to_influx ::
  "config \<Rightarrow> 'ts pylib \<Rightarrow> 'ts collaborators \<Rightarrow> 'ts world \<Rightarrow> 'ts point list
   \<Rightarrow> 'ts world \<times> (py_error + nat)" where
  "write_to_influx cfg lib co w points =
     (if \<not> (env_set (influx_token cfg) \<and> influx_org cfg \<noteq> [] \<and> influx_bucket cfg \<noteq> [])
      then (w, Inl (RuntimeError MissingInfluxConfig))
      else
        let influx_points = map (to_influx_point lib) points
        in if influx_points \<noteq> []
           then
             (let w' = w\<lparr>influx_log := influx_log w @ [influx_points]\<rparr>
              in case influx_write co (length (influx_log w)) influx_points of
                   Some e \<Rightarrow> (w', Inl e)
                 | None \<Rightarrow> (w', Inr (length influx_points)))
           else (w, Inr (length influx_points)))"

section \<open>ChangeDetector: \<open>stable_hash\<close>\<close>

text \<open>
  \<open>json.dumps(obj, sort_keys=True, ensure_ascii=False)\<close>. In a string only the quote, the
  backslash and the control characters below \<open>0x20\<close> are escaped.
\<close>

definition hex_digit :: "int \<Rightarrow> char" where
  "hex_digit n = ''0123456789abcdef'' ! nat n"

definition escape_char :: "char \<Rightarrow> string" where
  "escape_char c =
     (let n = (of_char c :: int)
      in if c = CHR 0x22 then [CHR 0x5C, CHR 0x22]
         else if c = CHR 0x5C then [CHR 0x5C, CHR 0x5C]
         else if c = CHR 0x0A then [CHR 0x5C, CHR ''n'']
         else if c = CHR 0x0D then [CHR 0x5C, CHR ''r'']
         else if c = CHR 0x09 then [CHR 0x5C, CHR ''t'']
         else if c = CHR 0x08 then [CHR 0x5C, CHR ''b'']
         else if c = CHR 0x0C then [CHR 0x5C, CHR ''f'']
         else if n < 32 then [CHR 0x5C, CHR ''u'', CHR ''0'', CHR ''0'',
                              hex_digit (n div 16), hex_digit (n mod 16)]
         else [c])"

definition encode_string :: "string \<Rightarrow> string" where
  "encode_string s = [CHR 0x22] @ concat (map escape_char s) @ [CHR 0x22]"

definition dumps_float :: "'ts pylib \<Rightarrow> pyfloat \<Rightarrow> string" where
  "dumps_float lib x =
     (case x of Finite q \<Rightarrow> float_repr lib q | PosInf \<Rightarrow> ''Infinity''
      | NegInf \<Rightarrow> ''-Infinity'' | NaN \<Rightarrow> ''NaN'')"

function (sequential) json_dumps :: "'ts pylib \<Rightarrow> json \<Rightarrow> string" where
  "json_dumps lib JNull = ''null''"
| "json_dumps lib (JBool b) = (if b then ''true'' else ''false'')"
| "json_dumps lib (JInt i) = int_repr i"
| "json_dumps lib (JFloat x) = dumps_float lib x"
| "json_dumps lib (JStr s) = encode_string s"
| "json_dumps lib (JArr xs) = ''['' @ join '', '' (map (json_dumps lib) xs) @ '']''"
| "json_dumps lib (JObj kvs) =
     ''{'' @ join '', ''
              (map (\<lambda>kv. encode_string (fst kv) @ '': '' @ json_dumps lib (snd kv))
                 (sort_key fst kvs)) @ ''}''"
  by pat_completeness auto
termination
proof (relation "measure (\<lambda>(lib, j). size j)")
  show "wf (measure (\<lambda>(lib :: 'ts pylib, j). size j))" by simp
next
  fix lib :: "'ts pylib" and xs :: "json list" and x
  assume "x \<in> set xs"
  then have "size x < Suc (size_list size xs)"
    by (induction xs) auto
  then show "((lib, x), (lib, JArr xs)) \<in> measure (\<lambda>(lib, j). size j)" by simp
next
  fix lib :: "'ts pylib" and kvs :: "(string \<times> json) list" and kv
  assume "kv \<in> set (sort_key fst kvs)"
  then have mem: "kv \<in> set kvs" by simp
  have "size (snd kv) \<le> size_prod (\<lambda>_. 0) size kv" by (cases kv) simp
  with mem have "size (snd kv) \<le> size_list (size_prod (\<lambda>_. 0) size) kvs"
    by (rule size_list_estimation')
  then show "((lib, snd kv), (lib, JObj kvs)) \<in> measure (\<lambda>(lib, j). size j)" by simp
qed

text \<open>\<open>str.encode("utf-8")\<close> for code points below 256.\<close>

definition utf8_encode :: "string \<Rightarrow> int list" where
  "utf8_encode s =
     concat (map (\<lambda>c. let n = (of_char c :: int)
                        in if n < 128 then [n] else [192 + n div 64, 128 + n mod 64]) s)"

text \<open>
  \<open>hashlib.sha256\<close> (FIPS 180-4) on 32-bit words held as integers, with the reduction
  modulo \<open>2^32\<close> written out.
\<close>

definition rotr :: "nat \<Rightarrow> int \<Rightarrow> int" where
  "rotr n x = x div 2 ^ n + (x mod 2 ^ n) * 2 ^ (32 - n)"

definition add32 :: "int \<Rightarrow> int \<Rightarrow> int" where
  "add32 x y = (x + y) mod 2 ^ 32"

definition not32 :: "int \<Rightarrow> int" where
  "not32 x = 2 ^ 32 - 1 - x"

definition ch :: "int \<Rightarrow> int \<Rightarrow> int \<Rightarrow> int" where
  "ch x y z = (x AND y) XOR (not32 x AND z)"

definition maj :: "int \<Rightarrow> int \<Rightarrow> int \<Rightarrow> int" where
  "maj x y z = (x AND y) XOR (x AND z) XOR (y AND z)"

definition bsig0 :: "int \<Rightarrow> int" where
  "bsig0 x = rotr 2 x XOR rotr 13 x XOR rotr 22 x"

definition bsig1 :: "int \<Rightarrow> int" where
  "bsig1 x = rotr 6 x XOR rotr 11 x XOR rotr 25 x"

definition ssig0 :: "int \<Rightarrow> int" where
  "ssig0 x = rotr 7 x XOR rotr 18 x XOR x div 2 ^ 3"

definition ssig1 :: "int \<Rightarrow> int" where
  "ssig1 x = rotr 17 x XOR rotr 19 x XOR x div 2 ^ 10"

text \<open>The round constants, eight to a row.\<close>

definition sha_k :: "int list" where
  "sha_k =
     [0x428a2f98, 0x71374491, 0xb5c0fbcf, 0xe9b5dba5, 0x3956c25b, 0x59f111f1, 0x923f82a4, 0xab1c5ed5] @
     [0xd807aa98, 0x12835b01, 0x243185be, 0x550c7dc3, 0x72be5d74, 0x80deb1fe, 0x9bdc06a7, 0xc19bf174] @
     [0xe49b69c1, 0xefbe4786, 0x0fc19dc6, 0x240ca1cc, 0x2de92c6f, 0x4a7484aa, 0x5cb0a9dc, 0x76f988da] @
     [0x983e5152, 0xa831c66d, 0xb00327c8, 0xbf597fc7, 0xc6e00bf3, 0xd5a79147, 0x06ca6351, 0x14292967] @
     [0x27b70a85, 0x2e1b2138, 0x4d2c6dfc, 0x53380d13, 0x650a7354, 0x766a0abb, 0x81c2c92e, 0x92722c85] @
     [0xa2bfe8a1, 0xa81a664b, 0xc24b8b70, 0xc76c51a3, 0xd192e819, 0xd6990624, 0xf40e3585, 0x106aa070] @
     [0x19a4c116, 0x1e376c08, 0x2748774c, 0x34b0bcb5, 0x391c0cb3, 0x4ed8aa4a, 0x5b9cca4f, 0x682e6ff3] @
     [0x748f82ee, 0x78a5636f, 0x84c87814, 0x8cc70208, 0x90befffa, 0xa4506ceb, 0xbef9a3f7, 0xc67178f2]"

type_synonym sha_state = "int \<times> int \<times> int \<times> int \<times> int \<times> int \<times> int \<times> int"

definition sha_h0 :: sha_state where
  "sha_h0 = (0x6a09e667, 0xbb67ae85, 0x3c6ef372, 0xa54ff53a,
             0x510e527f, 0x9b05688c, 0x1f83d9ab, 0x5be0cd19)"

text \<open>
  The message schedule is kept as a window of sixteen words, oldest first:
  \<open>W[t+16] = ssig1 W[t+14] + W[t+9] + ssig0 W[t+1] + W[t]\<close>.
\<close>

definition next_w :: "int list \<Rightarrow> int" where
  "next_w ws = add32 (add32 (add32 (ssig1 (ws ! 14)) (ws ! 9)) (ssig0 (ws ! 1))) (ws ! 0)"

definition sha_step :: "int \<Rightarrow> int \<Rightarrow> sha_state \<Rightarrow> sha_state" where
  "sha_step k w st =
     (case st of (a, b, c, d, e, f, g, h) \<Rightarrow>
        let t1 = add32 (add32 (add32 (add32 h (bsig1 e)) (ch e f g)) k) w;
            t2 = add32 (bsig0 a) (maj a b c)
        in (add32 t1 t2, a, b, c, add32 d t1, e, f, g))"

fun sha_rounds :: "int list \<Rightarrow> int list \<Rightarrow> sha_state \<Rightarrow> sha_state" where
  "sha_rounds [] ws st = st"
| "sha_rounds (k # ks) ws st = sha_rounds ks (tl ws @ [next_w ws]) (sha_step k (ws ! 0) st)"

fun be_words :: "int list \<Rightarrow> int list" where
  "be_words (a # b # c # d # bs) = (((a * 256 + b) * 256 + c) * 256 + d) # be_words bs"
| "be_words _ = []"

definition compress :: "sha_state \<Rightarrow> int list \<Rightarrow> sha_state" where
  "compress st block =
     (case (st, sha_rounds sha_k (be_words block) st) of
        ((a, b, c, d, e, f, g, h), (a', b', c', d', e', f', g', h')) \<Rightarrow>
          (add32 a a', add32 b b', add32 c c', add32 d d',
           add32 e e', add32 f f', add32 g g', add32 h h'))"

definition be_bytes :: "nat \<Rightarrow> int \<Rightarrow> int list" where
  "be_bytes n v = map (\<lambda>i. (v div 256 ^ i) mod 256) (rev [0..<n])"

definition sha_pad :: "int list \<Rightarrow> int list" where
  "sha_pad m =
     m @ [128] @ replicate ((119 - length m mod 64) mod 64) 0 @ be_bytes 8 (8 * int (length m))"

function sha_blocks :: "sha_state \<Rightarrow> int list \<Rightarrow> sha_state" where
  "sha_blocks st bs =
     (if length bs < 64 then st else sha_blocks (compress st (take 64 bs)) (drop 64 bs))"
  by pat_completeness auto
termination by (relation "measure (\<lambda>(st, bs). length bs)") auto

definition sha256 :: "int list \<Rightarrow> sha_state" where
  "sha256 m = sha_blocks sha_h0 (sha_pad m)"

definition hex_word :: "int \<Rightarrow> string" where
  "hex_word w = map (\<lambda>i. hex_digit ((w div 16 ^ i) mod 16)) [7, 6, 5, 4, 3, 2, 1, 0]"

definition hexdigest :: "sha_state \<Rightarrow> string" where
  "hexdigest st =
     (case st of (a, b, c, d, e, f, g, h) \<Rightarrow> concat (map hex_word [a, b, c, d, e, f, g, h]))"

text \<open>
  \<^verbatim>\<open>
  def stable_hash(obj):
      raw = json.dumps(obj, sort_keys=True, ensure_ascii=False).encode("utf-8")
      return hashlib.sha256(raw).hexdigest()
  \<close>
\<close>

definition stable_hash :: "'ts pylib \<Rightarrow> json \<Rightarrow> string" where
  "stable_hash lib obj = hexdigest (sha256 (utf8_encode (json_dumps lib obj)))"

text \<open>
  Two documents that differ only in the order of the keys inside objects: the same
  scalars, arrays equal element by element in order, objects with the same keys (each
  once) bound to values that again differ only in key order.
\<close>

fun key_reordered :: "json \<Rightarrow> json \<Rightarrow> bool" where
  "key_reordered (JArr xs) (JArr ys) = list_all2 key_reordered xs ys"
| "key_reordered (JObj xs) (JObj ys) =
     (distinct (map fst xs) \<and> distinct (map fst ys) \<and> length xs = length ys \<and>
      (\<forall>kv \<in> set xs. case map_of ys (fst kv) of
                          None \<Rightarrow> False
                        | Some w \<Rightarrow> key_reordered (snd kv) w))"
| "key_reordered a b = (a = b)"

section \<open>BatchPartitioner: \<open>chunked\<close>\<close>

text \<open>
  \<^verbatim>\<open>
  def chunked(xs, n):
      return [xs[i:i+n] for i in range(0, len(xs), n)]
  \<close>
  \<open>range(0, len(xs), n)\<close> raises \<open>ValueError\<close> for a zero step and is empty for a
  negative one. For a positive step it yields \<open>0, n, 2n, ...\<close> below \<open>len(xs)\<close>;
  \<open>chunks_from\<close> is that comprehension, started at index \<open>i\<close>.
\<close>

function chunks_from :: "'a list \<Rightarrow> nat \<Rightarrow> nat \<Rightarrow> 'a list list" where
  "chunks_from xs n i =
     (if 0 < n \<and> i < length xs then take n (drop i xs) # chunks_from xs n (i + n) else [])"
  by pat_completeness auto
termination
  by (relation "measure (\<lambda>(xs, n, i). length xs - i)") auto

definition chunked :: "'a list \<Rightarrow> int \<Rightarrow> py_error + 'a list list" where
  "chunked xs n =
     (if n = 0 then Inl ValueError
      else if n < 0 then Inr []
      else Inr (chunks_from xs (nat n) 0))"

text \<open>The integer form of \<open>ceil(m / n)\<close>, used to count the batches.\<close>

definition ceil_div :: "nat \<Rightarrow> nat \<Rightarrow> nat" where
  "ceil_div m n = (m + n - 1) div n"


section \<open>PlaceResolver\<close>

text \<open>
  \<open>find_places\<close>: one GET on the place-search endpoint. The request is logged before its
  outcome is known; a body that is a dict with an \<open>exception\<close> key is a \<open>RuntimeError\<close>.
\<close>

definition find_places_params :: "config \<Rightarrow> string \<Rightarrow> string \<Rightarrow> (string \<times> string) list" where
  "find_places_params cfg query types =
     [(''API_KEY'', the (api_key cfg)), (''location'', query), (''types'', types),
      (''lang'', ''es''), (''format'', ''application/json''),
      (''exceptionsFormat'', ''application/json'')]"

definition find_places ::
  "config \<Rightarrow> 'ts collaborators \<Rightarrow> 'ts world \<Rightarrow> string \<Rightarrow> string
   \<Rightarrow> 'ts world \<times> (py_error + json)" where
  "find_places cfg co w query types =
     (if \<not> env_set (api_key cfg) then (w, Inl (RuntimeError MissingApiKey))
      else
        let params = find_places_params cfg query types;
            w' = w\<lparr>http_log := http_log w @ [(FindPlaces, params)]\<rparr>
        in case http_get co (length (http_log w)) FindPlaces params of
             Inl e \<Rightarrow> (w', Inl e)
           | Inr data \<Rightarrow>
               if dict_has_key data ''exception''
               then (w', Inl (RuntimeError (FindPlacesException
                                (case py_get data ''exception'' of Inr x \<Rightarrow> x | Inl _ \<Rightarrow> JNull))))
               else (w', Inr data))"

text \<open>
  The name a feature is compared by:
  \<^verbatim>\<open>
  props = (f.get("properties") or {})
  name = (props.get("name") or "")
  normalize_query(name)
  \<close>
\<close>

definition feature_name :: "json \<Rightarrow> py_error + string" where
  "feature_name f =
     bind_err (py_get f ''properties'') (\<lambda>p.
     bind_err (py_get (py_or p (JObj [])) ''name'') (\<lambda>n.
     normalize_value (py_or n (JStr []))))"

text \<open>The loop that fills \<open>exact\<close>.\<close>

fun exact_matches :: "string \<Rightarrow> json list \<Rightarrow> py_error + json list" where
  "exact_matches q [] = Inr []"
| "exact_matches q (f # fs) =
     bind_err (feature_name f) (\<lambda>n.
     bind_err (exact_matches q fs) (\<lambda>rest.
     Inr (if n = q then f # rest else rest)))"

text \<open>
  \<^verbatim>\<open>
  if exact:
      return exact[0]
  return features[0] if features else None
  \<close>
  When the loop has finished without an exception over a non-empty \<open>features\<close>, every
  element had a \<open>get\<close> method, so \<open>features\<close> is a list and \<open>features[0]\<close> its first
  element.
\<close>

definition pick_best_feature :: "string \<Rightarrow> json \<Rightarrow> py_error + json" where
  "pick_best_feature query features =
     bind_err (py_iter features) (\<lambda>fs.
     bind_err (exact_matches (normalize_query query) fs) (\<lambda>exact.
     case exact of
       x # _ \<Rightarrow> Inr x
     | [] \<Rightarrow> (case fs of f # _ \<Rightarrow> Inr f | [] \<Rightarrow> Inr JNull)))"

text \<open>
  The body of the loop of \<open>resolve_place_ids\<close> for one query, on the world and the
  dictionary \<open>out\<close>.
\<close>

definition cached_id :: "(string \<times> json) list \<Rightarrow> string \<Rightarrow> py_error + bool" where
  "cached_id out key =
     (case map_of out key of
        None \<Rightarrow> Inr False
      | Some entry \<Rightarrow> bind_err (py_get entry ''id'') (\<lambda>i. Inr (truthy i)))"

definition resolved_entry :: "string \<Rightarrow> json \<Rightarrow> py_error + string \<times> json" where
  "resolved_entry q best =
     bind_err (py_get best ''properties'') (\<lambda>p.
     let props = py_or p (JObj [])
     in bind_err (py_get props ''id'') (\<lambda>i.
        bind_err (strip_value (py_or i (JStr []))) (\<lambda>place_id.
        bind_err (py_get props ''name'') (\<lambda>n.
        bind_err (py_get props ''municipality'') (\<lambda>m.
        bind_err (py_get props ''province'') (\<lambda>pr.
        bind_err (py_get props ''type'') (\<lambda>t.
        Inr (place_id,
             JObj [(''query'', JStr q), (''id'', JStr place_id), (''name'', n),
                   (''municipality'', m), (''province'', pr), (''type'', t)]))))))))"

definition resolve_one ::
  "config \<Rightarrow> 'ts collaborators \<Rightarrow> string \<Rightarrow> 'ts world \<times> (string \<times> json) list \<Rightarrow> string
   \<Rightarrow> 'ts world \<times> (py_error + (string \<times> json) list)" where
  "resolve_one cfg co types st q =
     (case st of (w, out) \<Rightarrow>
        let key = normalize_query q
        in case cached_id out key of
             Inl e \<Rightarrow> (w, Inl e)
           | Inr True \<Rightarrow> (w, Inr out)
           | Inr False \<Rightarrow>
               (case find_places cfg co w q types of
                  (w1, Inl e) \<Rightarrow> (w1, Inl e)
                | (w1, Inr data) \<Rightarrow>
                    (case bind_err (py_get data ''features'')
                            (\<lambda>fs. pick_best_feature q (py_or fs (JArr []))) of
                       Inl e \<Rightarrow> (w1, Inl e)
                     | Inr best \<Rightarrow>
                         if \<not> truthy best
                         then (w1\<lparr>stdout := stdout w1 @ [WarnNoPlace q]\<rparr>,
                               Inr (AList.update key
                                      (JObj [(''id'', JNull), (''query'', JStr q)]) out))
                         else
                           (case resolved_entry q best of
                              Inl e \<Rightarrow> (w1, Inl e)
                            | Inr (place_id, entry) \<Rightarrow>
                                (w1\<lparr>stdout := stdout w1 @
                                     [OkPlace q place_id
                                        (case py_get entry ''name'' of Inr x \<Rightarrow> x | Inl _ \<Rightarrow> JNull)
                                        (case py_get entry ''province'' of Inr x \<Rightarrow> x | Inl _ \<Rightarrow> JNull)]\<rparr>,
                                 Inr (AList.update key entry out))))))"

fun resolve_loop ::
  "config \<Rightarrow> 'ts collaborators \<Rightarrow> string \<Rightarrow> 'ts world \<times> (string \<times> json) list
   \<Rightarrow> string list \<Rightarrow> 'ts world \<times> (py_error + (string \<times> json) list)" where
  "resolve_loop cfg co types (w, out) [] = (w, Inr out)"
| "resolve_loop cfg co types (w, out) (q # qs) =
     (case resolve_one cfg co types (w, out) q of
        (w', Inl e) \<Rightarrow> (w', Inl e)
      | (w', Inr out') \<Rightarrow> resolve_loop cfg co types (w', out') qs)"

text \<open>
  \<open>resolve_place_ids\<close>: load the cache, run the loop, save and return \<open>out\<close>. An exception
  leaves the file as it was.
\<close>

definition resolve_place_ids ::
  "config \<Rightarrow> 'ts collaborators \<Rightarrow> 'ts world \<Rightarrow> string list \<Rightarrow> string
   \<Rightarrow> 'ts world \<times> (py_error + (string \<times> json) list)" where
  "resolve_place_ids cfg co w place_queries types =
     (case resolve_loop cfg co types (w, load_json (places_file w)) place_queries of
        (w', Inl e) \<Rightarrow> (w', Inl e)
      | (w', Inr out) \<Rightarrow> (w'\<lparr>places_file := Some out\<rparr>, Inr out))"

section \<open>ForecastFetcher and run orchestration\<close>

text \<open>
  \<open>request_forecast\<close>: one GET on the forecast endpoint, with the batch and the variable
  names comma-joined; a body that is a dict with an \<open>exception\<close> key is a \<open>RuntimeError\<close>.
\<close>

definition forecast_params ::
  "config \<Rightarrow> string list \<Rightarrow> string list \<Rightarrow> (string \<times> string) list" where
  "forecast_params cfg location_ids variables =
     DEFAULT_PARAMS @
     [(''API_KEY'', the (api_key cfg)), (''locationIds'', join '','' location_ids),
      (''variables'', join '','' variables)]"

definition request_forecast ::
  "config \<Rightarrow> 'ts collaborators \<Rightarrow> 'ts world \<Rightarrow> string list \<Rightarrow> string list
   \<Rightarrow> 'ts world \<times> (py_error + json)" where
  "request_forecast cfg co w location_ids variables =
     (if \<not> env_set (api_key cfg) then (w, Inl (RuntimeError MissingApiKey))
      else
        let params = forecast_params cfg location_ids variables;
            w' = w\<lparr>http_log := http_log w @ [(Forecast, params)]\<rparr>
        in case http_get co (length (http_log w)) Forecast params of
             Inl e \<Rightarrow> (w', Inl e)
           | Inr data \<Rightarrow>
               if dict_has_key data ''exception''
               then (w', Inl (RuntimeError (ForecastException
                                (case py_get data ''exception'' of Inr x \<Rightarrow> x | Inl _ \<Rightarrow> JNull))))
               else (w', Inr data))"

text \<open>
  The loop over the features of one response: the points of every feature without an
  exception marker, and the number of features skipped.
\<close>

fun collect_points :: "'ts pylib \<Rightarrow> json list \<Rightarrow> py_error + 'ts point list \<times> nat" where
  "collect_points lib [] = Inr ([], 0)"
| "collect_points lib (feat # feats) =
     bind_err (py_get feat ''exception'') (\<lambda>ex.
     if truthy ex
     then bind_err (collect_points lib feats) (\<lambda>(pts, skipped). Inr (pts, Suc skipped))
     else bind_err (iter_timeseries_points lib feat) (\<lambda>ps.
          bind_err (collect_points lib feats) (\<lambda>(pts, skipped). Inr (ps @ pts, skipped))))"

text \<open>
  The body of the loop of \<open>run_etl\<close> for one batch, on the world, the ledger \<open>state\<close> and
  \<open>total_written\<close>.
\<close>

definition etl_batch ::
  "config \<Rightarrow> 'ts pylib \<Rightarrow> 'ts collaborators \<Rightarrow> string list
   \<Rightarrow> 'ts world \<times> (string \<times> json) list \<times> nat \<Rightarrow> string list
   \<Rightarrow> 'ts world \<times> (py_error + (string \<times> json) list \<times> nat)" where
  "etl_batch cfg lib co variables st batch =
     (case st of (w, state, total_written) \<Rightarrow>
        case request_forecast cfg co w batch variables of
          (w1, Inl e) \<Rightarrow> (w1, Inl e)
        | (w1, Inr data) \<Rightarrow>
            let batch_key = join '','' batch;
                h = stable_hash lib data
            in if map_of state batch_key = Some (JStr h)
               then (w1\<lparr>stdout := stdout w1 @ [SkipBatch batch_key]\<rparr>,
                     Inr (state, total_written))
               else
                 (case bind_err (py_get data ''features'')
                         (\<lambda>fs. bind_err (py_iter (py_or fs (JArr []))) (collect_points lib)) of
                    Inl e \<Rightarrow> (w1, Inl e)
                  | Inr (all_points, skipped) \<Rightarrow>
                      (case write_to_influx cfg lib co w1 all_points of
                         (w2, Inl e) \<Rightarrow> (w2, Inl e)
                       | (w2, Inr written) \<Rightarrow>
                           let state' = AList.update batch_key (JStr h) state
                           in (w2\<lparr>state_file := Some state',
                                  stdout := stdout w2 @ [OkBatch batch_key written skipped]\<rparr>,
                               Inr (state', total_written + written)))))"

fun etl_loop ::
  "config \<Rightarrow> 'ts pylib \<Rightarrow> 'ts collaborators \<Rightarrow> string list
   \<Rightarrow> 'ts world \<times> (string \<times> json) list \<times> nat \<Rightarrow> string list list
   \<Rightarrow> 'ts world \<times> (py_error + (string \<times> json) list \<times> nat)" where
  "etl_loop cfg lib co variables (w, state, written) [] = (w, Inr (state, written))"
| "etl_loop cfg lib co variables (w, state, written) (batch # batches) =
     (case etl_batch cfg lib co variables (w, state, written) batch of
        (w', Inl e) \<Rightarrow> (w', Inl e)
      | (w', Inr (state', written')) \<Rightarrow> etl_loop cfg lib co variables (w', state', written') batches)"

text \<open>
  \<open>run_etl\<close>: the world after the run, and the exception that ended it, if one did.
\<close>

definition run_etl ::
  "config \<Rightarrow> 'ts pylib \<Rightarrow> 'ts collaborators \<Rightarrow> 'ts world \<Rightarrow> string list
   \<Rightarrow> string list option \<Rightarrow> 'ts world \<times> py_error option" where
  "run_etl cfg lib co w location_ids variables =
     (let vars = (case variables of None \<Rightarrow> DEFAULT_VARIABLES
                  | Some vs \<Rightarrow> if vs = [] then DEFAULT_VARIABLES else vs)
      in case chunked location_ids MAX_IDS_PER_REQUEST of
           Inl e \<Rightarrow> (w, Some e)
         | Inr batches \<Rightarrow>
             (case etl_loop cfg lib co vars (w, load_json (state_file w), 0) batches of
                (w', Inl e) \<Rightarrow> (w', Some e)
              | (w', Inr (state, written)) \<Rightarrow> (w'\<lparr>stdout := stdout w' @ [Total written]\<rparr>, None)))"

section \<open>Inputs for examples\<close>

text \<open>
  An instance of the library functions, for running the model on examples: a timestamp
  is kept as its text, and the text of floats and containers is left empty.
\<close>

definition text_lib :: "string pylib" where
  "text_lib =
     \<lparr>isoparse = (\<lambda>j. case j of JStr s \<Rightarrow> Inr s | _ \<Rightarrow> Inl TypeError),
      py_repr = (\<lambda>j. []), float_repr = (\<lambda>q. [])\<rparr>"

text \<open>
  A response feature holding one day with one variable with one hourly value, and the
  tags the transformer gives its points.
\<close>

definition single_record_feature :: "string \<Rightarrow> json \<Rightarrow> json" where
  "single_record_feature var_name hv =
     JObj [(''properties'',
            JObj [(''days'',
                   JArr [JObj [(''variables'',
                               JArr [JObj [(''name'', JStr var_name),
                                           (''values'', JArr [hv])]])]])])]"

definition bare_tags :: "string \<Rightarrow> (string \<times> json) list" where
  "bare_tags var_name =
     [(''place_id'', JStr []), (''place_name'', JStr []), (''municipality'', JStr []),
      (''province'', JStr []), (''type'', JStr []), (''variable'', JStr var_name),
      (''model'', JStr []), (''grid'', JStr []), (''units'', JStr [])]"



text \<open>
  Collaborators that answer the \<open>k\<close>-th HTTP request with the \<open>k\<close>-th of a list of outcomes
  and accept every write; a world in which nothing has happened yet; a configuration with
  every credential set.
\<close>

definition canned_collaborators :: "(py_error + json) list \<Rightarrow> 'ts collaborators" where
  "canned_collaborators rs =
     \<lparr>http_get = (\<lambda>k ep params. if k < length rs then rs ! k else Inl RequestException),
      influx_write = (\<lambda>k ps. None)\<rparr>"

definition empty_world :: "'ts world" where
  "empty_world =
     \<lparr>http_log = [], influx_log = [], places_file = None, state_file = None, stdout = []\<rparr>"

definition test_config :: config where
  "test_config =
     \<lparr>api_key = Some ''key'', influx_token = Some ''token'', influx_org = ''hackudc'',
      influx_bucket = ''meteosix''\<rparr>"

text \<open>A place-search feature with the given name (and the same text as its id).\<close>

definition named_feature :: "string \<Rightarrow> json" where
  "named_feature name = JObj [(''properties'', JObj [(''id'', JStr name), (''name'', JStr name)])]"

text \<open>
  The number of place-search requests in a log whose \<open>location\<close> normalizes to \<open>key\<close>.
\<close>

definition searches_for :: "string \<Rightarrow> (endpoint \<times> (string \<times> string) list) list \<Rightarrow> nat" where
  "searches_for key reqs =
     length (filter (\<lambda>(ep, params). ep = FindPlaces \<and>
                       (case map_of params ''location'' of
                          Some q \<Rightarrow> normalize_query q = key
                        | None \<Rightarrow> False)) reqs)"

text \<open>
  A place-search response with one feature, and a world whose place cache holds one
  entry, for \<open>vigo\<close>, with the given id.
\<close>

definition search_result :: "string \<Rightarrow> py_error + json" where
  "search_result name = Inr (JObj [(''features'', JArr [named_feature name])])"

definition cached_world :: "json \<Rightarrow> string world" where
  "cached_world place_id =
     empty_world\<lparr>places_file :=
       Some [(''vigo'', JObj [(''query'', JStr ''Vigo''), (''id'', place_id),
                              (''name'', JStr ''Vigo'')])]\<rparr>"

text \<open>A run over a cached query and a new one.\<close>

definition vigo_lugo_run :: "string world \<times> (py_error + (string \<times> json) list)" where
  "vigo_lugo_run =
     resolve_place_ids test_config (canned_collaborators [search_result ''Lugo''])
       (cached_world (JStr ''36057'')) [''  Vigo'', ''lugo''] ''locality''"

section \<open>Properties of \<open>chunked\<close>\<close>

declare chunks_from.simps [simp del]

lemma chunks_from_step:
  "0 < n \<Longrightarrow> i < length xs \<Longrightarrow>
   chunks_from xs n i = take n (drop i xs) # chunks_from xs n (i + n)"
  by (subst chunks_from.simps) simp

lemma chunks_from_stop: "\<not> (0 < n \<and> i < length xs) \<Longrightarrow> chunks_from xs n i = []"
  by (subst chunks_from.simps) simp

lemma concat_chunks_from: "0 < n \<Longrightarrow> concat (chunks_from xs n i) = drop i xs"
proof (induction xs n i rule: chunks_from.induct)
  case (1 xs n i)
  show ?case
  proof (cases "i < length xs")
    case True
    have "drop i xs = take n (drop i xs) @ drop n (drop i xs)"
      by (simp only: append_take_drop_id)
    also have "drop n (drop i xs) = drop (i + n) xs" by (simp add: add.commute)
    finally show ?thesis using 1 True by (simp add: chunks_from_step)
  next
    case False
    then show ?thesis by (simp add: chunks_from_stop)
  qed
qed

lemma chunks_from_le: "b \<in> set (chunks_from xs n i) \<Longrightarrow> length b \<le> n"
proof (induction xs n i rule: chunks_from.induct)
  case (1 xs n i)
  show ?case
  proof (cases "0 < n \<and> i < length xs")
    case True
    with "1.prems" have "b = take n (drop i xs) \<or> b \<in> set (chunks_from xs n (i + n))"
      by (simp add: chunks_from_step)
    then show ?thesis using "1.IH" True by auto
  next
    case False
    with "1.prems" show ?thesis by (simp add: chunks_from_stop)
  qed
qed

lemma chunks_from_butlast:
  "b \<in> set (butlast (chunks_from xs n i)) \<Longrightarrow> length b = n"
proof (induction xs n i rule: chunks_from.induct)
  case (1 xs n i)
  show ?case
  proof (cases "0 < n \<and> i < length xs")
    case True
    then have eq: "chunks_from xs n i = take n (drop i xs) # chunks_from xs n (i + n)"
      by (simp add: chunks_from_step)
    show ?thesis
    proof (cases "chunks_from xs n (i + n) = []")
      case True
      with eq "1.prems" show ?thesis by simp
    next
      case False
      then have "i + n < length xs"
        by (subst (asm) chunks_from.simps) (simp split: if_splits)
      then have "length (take n (drop i xs)) = n" by simp
      with eq False "1.prems" "1.IH" True show ?thesis by auto
    qed
  next
    case False
    then have "chunks_from xs n i = []" by (simp add: chunks_from_stop)
    with "1.prems" show ?thesis by simp
  qed
qed

lemma ceil_div_nat:
  fixes m n :: nat
  assumes "0 < n"
  shows "(m + n - 1) div n = (if m = 0 then 0 else Suc ((m - 1) div n))"
proof (cases "m = 0")
  case True
  have "(n - 1) div n = 0" using assms by simp
  with True show ?thesis by simp
next
  case False
  then have eq: "m + n - 1 = (m - 1) + n" by simp
  have "((m - 1) + n) div n = Suc ((m - 1) div n)"
    using assms div_add_self2 [of n "m - 1"] by simp
  then have "(m + n - 1) div n = Suc ((m - 1) div n)" by (simp only: eq)
  then show ?thesis using False by simp
qed

lemma ceil_div_0: "0 < n \<Longrightarrow> ceil_div 0 n = 0"
  by (simp add: ceil_div_def)

lemma ceil_div_small: "0 < n \<Longrightarrow> 0 < m \<Longrightarrow> m \<le> n \<Longrightarrow> ceil_div m n = 1"
  unfolding ceil_div_def using ceil_div_nat [of n m] by simp

lemma ceil_div_step: "0 < n \<Longrightarrow> n < m \<Longrightarrow> ceil_div m n = Suc (ceil_div (m - n) n)"
proof -
  assume n: "0 < n" and m: "n < m"
  have a: "ceil_div m n = Suc ((m - 1) div n)"
    unfolding ceil_div_def using ceil_div_nat [of n m] n m by simp
  have b: "ceil_div (m - n) n = Suc ((m - n - 1) div n)"
    unfolding ceil_div_def using ceil_div_nat [of n "m - n"] n m by simp
  have eq: "m - 1 = (m - n - 1) + n" using m by simp
  have "((m - n - 1) + n) div n = Suc ((m - n - 1) div n)"
    using n div_add_self2 [of n "m - n - 1"] by simp
  then have "(m - 1) div n = Suc ((m - n - 1) div n)" using eq by simp
  with a b show ?thesis by simp
qed

lemma length_chunks_from:
  "0 < n \<Longrightarrow> length (chunks_from xs n i) = ceil_div (length xs - i) n"
proof (induction xs n i rule: chunks_from.induct)
  case (1 xs n i)
  show ?case
  proof (cases "i < length xs")
    case True
    then have eq: "chunks_from xs n i = take n (drop i xs) # chunks_from xs n (i + n)"
      using "1.prems" by (simp add: chunks_from_step)
    have IH: "length (chunks_from xs n (i + n)) = ceil_div (length xs - (i + n)) n"
      using 1 True by simp
    show ?thesis
    proof (cases "i + n < length xs")
      case lt: True
      then have "n < length xs - i" by simp
      then have "ceil_div (length xs - i) n = Suc (ceil_div (length xs - i - n) n)"
        using "1.prems" by (rule ceil_div_step [rotated])
      moreover have "length xs - i - n = length xs - (i + n)" by simp
      ultimately show ?thesis using eq IH by simp
    next
      case ge: False
      then have "length xs - (i + n) = 0" by simp
      then have a: "ceil_div (length xs - (i + n)) n = 0" using "1.prems" by (simp add: ceil_div_0)
      have "0 < length xs - i" "length xs - i \<le> n" using ge True by simp_all
      then have "ceil_div (length xs - i) n = 1" using "1.prems" by (simp add: ceil_div_small)
      with eq IH a show ?thesis by simp
    qed
  next
    case False
    then have "chunks_from xs n i = []" by (simp add: chunks_from_stop)
    moreover have "ceil_div (length xs - i) n = 0" using False "1.prems" by (simp add: ceil_div_0)
    ultimately show ?thesis by simp
  qed
qed

lemma ceil_div_real:
  fixes m n :: nat
  assumes "0 < n"
  shows "ceil_div m n = nat \<lceil>real m / real n\<rceil>"
proof -
  define c where "c = (m + n - 1) div n"
  have up: "m + n - 1 < (c + 1) * n"
    unfolding c_def using assms dividend_less_times_div [of n "m + n - 1"]
    by (simp add: algebra_simps)
  have lo: "c * n \<le> m + n - 1"
    unfolding c_def by simp
  from up assms have 1: "m \<le> c * n" by (simp add: algebra_simps)
  from lo assms have 2: "c * n < m + n" by simp
  have r1: "real m / real n \<le> real c"
  proof -
    have "real m \<le> real (c * n)" using 1 by (simp only: of_nat_le_iff)
    then show ?thesis using assms by (simp add: field_simps)
  qed
  have r2: "real c - 1 < real m / real n"
  proof -
    have "real (c * n) < real (m + n)" using 2 by (simp only: of_nat_less_iff)
    then show ?thesis using assms by (simp add: field_simps)
  qed
  have "\<lceil>real m / real n\<rceil> = int c"
    by (rule ceiling_unique) (use r1 r2 in simp_all)
  then show ?thesis by (simp add: c_def ceil_div_def)
qed

text \<open>
  C2. For every list \<open>L\<close> and every positive \<open>maxSize\<close>, \<open>chunked\<close> returns
  batches whose concatenation is \<open>L\<close>; every batch has at most \<open>maxSize\<close> elements;
  every batch but the last has exactly \<open>maxSize\<close>; and there are
  \<open>ceil(len(L) / maxSize)\<close> batches.
\<close>

theorem chunked_partition:
  assumes "0 < n"
  shows "\<exists>bs. chunked xs n = Inr bs
           \<and> concat bs = xs
           \<and> (\<forall>b \<in> set bs. int (length b) \<le> n)
           \<and> (\<forall>b \<in> set (butlast bs). int (length b) = n)
           \<and> int (length bs) = \<lceil>real (length xs) / real_of_int n\<rceil>"
proof -
  let ?k = "nat n"
  let ?bs = "chunks_from xs ?k 0"
  have k: "0 < ?k" and nk: "n = int ?k" using assms by simp_all
  have 1: "chunked xs n = Inr ?bs" using assms by (simp add: chunked_def)
  have 2: "concat ?bs = xs" using concat_chunks_from [OF k, of xs 0] by simp
  have 3: "\<forall>b \<in> set ?bs. int (length b) \<le> n"
    using chunks_from_le [of _ xs ?k 0] assms by fastforce
  have 4: "\<forall>b \<in> set (butlast ?bs). int (length b) = n"
    using chunks_from_butlast [of _ xs ?k 0] assms by fastforce
  have "length ?bs = nat \<lceil>real (length xs) / real ?k\<rceil>"
    using length_chunks_from [OF k, of xs 0] ceil_div_real [OF k, of "length xs"] by simp
  moreover have "0 \<le> \<lceil>real (length xs) / real ?k\<rceil>"
  proof -
    have "(0::real) \<le> real (length xs) / real ?k" by simp
    then have "\<lceil>0::real\<rceil> \<le> \<lceil>real (length xs) / real ?k\<rceil>" by (rule ceiling_mono)
    then show ?thesis by simp
  qed
  moreover have "real ?k = real_of_int n" using assms by simp
  ultimately have 5: "int (length ?bs) = \<lceil>real (length xs) / real_of_int n\<rceil>"
    by simp
  from 1 2 3 4 5 show ?thesis by blast
qed

theorem chunked_partition_witness:
  "(0::int) < 2 \<and> (\<exists>bs. chunked [1, 2, 3, 4, 5 :: nat] 2 = Inr bs
           \<and> concat bs = [1, 2, 3, 4, 5]
           \<and> (\<forall>b \<in> set bs. int (length b) \<le> 2)
           \<and> (\<forall>b \<in> set (butlast bs). int (length b) = 2)
           \<and> int (length bs) = \<lceil>real (length [1, 2, 3, 4, 5 :: nat]) / real_of_int 2\<rceil>)"
  using chunked_partition [of 2 "[1, 2, 3, 4, 5 :: nat]"] by simp

section \<open>Properties of the transformer\<close>

lemma bind_err_Inr [simp]: "bind_err (Inr x) f = f x"
  by (simp add: bind_err_def)

lemma bind_err_Inl [simp]: "bind_err (Inl e) f = Inl e"
  by (simp add: bind_err_def)

lemma bind_err_eq_Inr:
  "bind_err m f = Inr y \<longleftrightarrow> (\<exists>x. m = Inr x \<and> f x = Inr y)"
  by (cases m) simp_all




lemma float_of_string_error: "float_of_string s = Inl e \<Longrightarrow> e = ValueError"
  by (auto simp: float_of_string_def Let_def split: if_splits prod.splits option.splits)



lemma scalar_fields_empty:
  assumes "py_get hv ''value'' = Inr v" and "v = JNull \<or> v = JStr []"
  shows "scalar_fields lib hv = Inr []"
  using assms by (auto simp add: scalar_fields_def)


lemma hourly_points_nonempty:
  assumes "hourly_points lib var_name tags hv = Inr pts" and "p \<in> set pts"
  shows "fst (snd p) \<noteq> []"
  using assms
  by (auto simp: hourly_points_def bind_err_eq_Inr Let_def split: if_splits)

lemma concat_map_err_all:
  assumes "\<And>x ys y. f x = Inr ys \<Longrightarrow> y \<in> set ys \<Longrightarrow> P y"
    and "concat_map_err f xs = Inr zs" and "z \<in> set zs"
  shows "P z"
  using assms(2,3)
proof (induction xs arbitrary: zs)
  case Nil
  then show ?case by simp
next
  case (Cons x xs)
  from Cons.prems(1) obtain ys rest where
    fx: "f x = Inr ys" and r: "concat_map_err f xs = Inr rest" and zs: "zs = ys @ rest"
    by (auto simp: bind_err_eq_Inr)
  from Cons.prems(2) zs have "z \<in> set ys \<or> z \<in> set rest" by simp
  then show ?case
  proof
    assume "z \<in> set ys"
    with fx show ?thesis by (rule assms(1))
  next
    assume "z \<in> set rest"
    with r show ?thesis by (rule Cons.IH)
  qed
qed

lemma variable_points_nonempty:
  assumes "variable_points lib place_tags var = Inr pts" and "p \<in> set pts"
  shows "fst (snd p) \<noteq> []"
proof -
  from assms(1) obtain var_name tags vals where
    "concat_map_err (hourly_points lib var_name tags) vals = Inr pts"
    by (auto simp: variable_points_def bind_err_eq_Inr Let_def)
  then show ?thesis
    using assms(2) by (rule concat_map_err_all [rotated]) (rule hourly_points_nonempty)
qed

lemma day_points_nonempty:
  assumes "day_points lib place_tags day = Inr pts" and "p \<in> set pts"
  shows "fst (snd p) \<noteq> []"
proof -
  from assms(1) obtain variables where
    "concat_map_err (variable_points lib place_tags) variables = Inr pts"
    by (auto simp: day_points_def bind_err_eq_Inr)
  then show ?thesis
    using assms(2) by (rule concat_map_err_all [rotated]) (rule variable_points_nonempty)
qed

lemma iter_timeseries_points_nonempty:
  assumes "iter_timeseries_points lib feature = Inr pts" and "p \<in> set pts"
  shows "fst (snd p) \<noteq> []"
proof -
  from assms have "\<exists>place_tags days. concat_map_err (day_points lib place_tags) days = Inr pts"
    by (auto simp: iter_timeseries_points_def bind_err_eq_Inr Let_def split: if_splits)
  then obtain place_tags days where
    "concat_map_err (day_points lib place_tags) days = Inr pts" by blast
  then show ?thesis
    using assms(2) by (rule concat_map_err_all [rotated]) (rule day_points_nonempty)
qed

lemma bind_err_return [simp]: "bind_err m Inr = m"
  by (cases m) simp_all



lemma wind_example_eval:
  "py_float (JInt 90) = Inr (Finite 90)"
  by simp







text \<open>
  Values that are neither a string nor a convertible number: a list or dict is kept as
  \<open>str(v)\<close>; an \<open>int\<close> too large for a float raises \<open>OverflowError\<close>, which the handler
  does not catch.
\<close>

lemma scalar_fields_container:
  assumes "py_get hv ''value'' = Inr v" and "v \<noteq> JNull" and "py_float v = Inl TypeError"
  shows "scalar_fields lib hv = Inr [(''value_str'', JStr (py_str lib v))]"
  using assms by (auto simp: scalar_fields_def dest: float_of_string_error)

lemma scalar_fields_overflow:
  assumes "py_get hv ''value'' = Inr (JInt i)" and "2 ^ 1024 - 2 ^ 970 \<le> \<bar>i\<bar>"
  shows "scalar_fields lib hv = Inl OverflowError"
  using assms by (auto simp: scalar_fields_def)

text \<open>
  C7 (as amended). The transformer never returns a point with an empty field map; a wind
  record with \<open>moduleValue\<close> and \<open>directionValue\<close> both absent and no \<open>modelRun\<close> gives no
  point, and a record of another variable with an empty or absent \<open>value\<close> and no
  \<open>modelRun\<close> gives no point.
\<close>

theorem no_empty_field_map:
  "(\<forall>pts p. iter_timeseries_points lib feature = Inr pts \<and> p \<in> set pts \<longrightarrow> fst (snd p) \<noteq> [])
   \<and> (py_get hv ''timeInstant'' = Inr ti \<and> truthy ti \<and> isoparse lib ti = Inr t
        \<and> py_get hv ''modelRun'' = Inr mr \<and> \<not> truthy mr
        \<and> py_get hv ''moduleValue'' = Inr JNull \<and> py_get hv ''directionValue'' = Inr JNull \<longrightarrow>
      hourly_points lib (JStr ''wind'') tags hv = Inr [])
   \<and> (py_get hv ''timeInstant'' = Inr ti \<and> truthy ti \<and> isoparse lib ti = Inr t
        \<and> py_get hv ''modelRun'' = Inr mr \<and> \<not> truthy mr
        \<and> var_name \<noteq> JStr ''wind''
        \<and> py_get hv ''value'' = Inr v \<and> (v = JNull \<or> v = JStr []) \<longrightarrow>
      hourly_points lib var_name tags hv = Inr [])"
proof (intro conjI allI impI)
  fix pts p
  assume "iter_timeseries_points lib feature = Inr pts \<and> p \<in> set pts"
  then show "fst (snd p) \<noteq> []"
    using iter_timeseries_points_nonempty [of lib feature pts p] by simp
next
  assume a: "py_get hv ''timeInstant'' = Inr ti \<and> truthy ti \<and> isoparse lib ti = Inr t
        \<and> py_get hv ''modelRun'' = Inr mr \<and> \<not> truthy mr
        \<and> py_get hv ''moduleValue'' = Inr JNull \<and> py_get hv ''directionValue'' = Inr JNull"
  then show "hourly_points lib (JStr ''wind'') tags hv = Inr []"
    by (simp add: hourly_points_def wind_fields_def)
next
  assume a: "py_get hv ''timeInstant'' = Inr ti \<and> truthy ti \<and> isoparse lib ti = Inr t
        \<and> py_get hv ''modelRun'' = Inr mr \<and> \<not> truthy mr
        \<and> var_name \<noteq> JStr ''wind''
        \<and> py_get hv ''value'' = Inr v \<and> (v = JNull \<or> v = JStr [])"
  then have "scalar_fields lib hv = Inr []"
    using scalar_fields_empty [of hv v lib] by simp
  with a show "hourly_points lib var_name tags hv = Inr []"
    by (simp add: hourly_points_def)
qed

lemma temperature_point:
  "iter_timeseries_points text_lib
     (single_record_feature ''temperature''
        (JObj [(''timeInstant'', JStr ''2026-03-01T10:00:00Z''), (''value'', JInt 18)])) =
   Inr [(''2026-03-01T10:00:00Z'', [(''value'', JFloat (Finite 18))], bare_tags ''temperature'')]"
  by code_simp

theorem no_empty_field_map_witness:
  "fst (snd (''2026-03-01T10:00:00Z'', [(''value'', JFloat (Finite 18))],
             bare_tags ''temperature'')) \<noteq> []
   \<and> hourly_points text_lib (JStr ''wind'') []
        (JObj [(''timeInstant'', JStr ''2026-03-01T10:00:00Z'')]) = Inr []
   \<and> hourly_points text_lib (JStr ''temperature'') []
        (JObj [(''timeInstant'', JStr ''2026-03-01T10:00:00Z''), (''value'', JStr [])]) = Inr []"
proof -
  note nonempty = no_empty_field_map [of text_lib
      "single_record_feature ''temperature''
        (JObj [(''timeInstant'', JStr ''2026-03-01T10:00:00Z''), (''value'', JInt 18)])"]
  have 1: "fst (snd (''2026-03-01T10:00:00Z'', [(''value'', JFloat (Finite 18))],
             bare_tags ''temperature'')) \<noteq> []"
    using nonempty temperature_point by simp
  have 2: "hourly_points text_lib (JStr ''wind'') []
        (JObj [(''timeInstant'', JStr ''2026-03-01T10:00:00Z'')]) = Inr []"
    using no_empty_field_map [of text_lib JNull
        "JObj [(''timeInstant'', JStr ''2026-03-01T10:00:00Z'')]"
        "JStr ''2026-03-01T10:00:00Z''" "''2026-03-01T10:00:00Z''" JNull "[]"]
    by (simp add: text_lib_def)
  have 3: "hourly_points text_lib (JStr ''temperature'') []
        (JObj [(''timeInstant'', JStr ''2026-03-01T10:00:00Z''), (''value'', JStr [])]) = Inr []"
    using no_empty_field_map [of text_lib JNull
        "JObj [(''timeInstant'', JStr ''2026-03-01T10:00:00Z''), (''value'', JStr [])]"
        "JStr ''2026-03-01T10:00:00Z''" "''2026-03-01T10:00:00Z''" JNull "[]"
        "JStr ''temperature''" "JStr []"]
    by (simp add: text_lib_def)
  from 1 2 3 show ?thesis by blast
qed

text \<open>
  C7 as stated fails: with a \<open>modelRun\<close>, a wind record with neither wind value, and a
  scalar record with an empty value, each give a point, whose only field is \<open>model_run\<close>.
\<close>

theorem model_run_only_counterexample:
  "iter_timeseries_points text_lib
     (single_record_feature ''wind''
        (JObj [(''timeInstant'', JStr ''2026-03-01T10:00:00Z''),
               (''modelRun'', JStr ''2026-03-01T00:00:00Z'')])) =
     Inr [(''2026-03-01T10:00:00Z'', [(''model_run'', JStr ''2026-03-01T00:00:00Z'')],
           bare_tags ''wind'')]
   \<and> iter_timeseries_points text_lib
     (single_record_feature ''temperature''
        (JObj [(''timeInstant'', JStr ''2026-03-01T10:00:00Z''), (''value'', JStr []),
               (''modelRun'', JStr ''2026-03-01T00:00:00Z'')])) =
     Inr [(''2026-03-01T10:00:00Z'', [(''model_run'', JStr ''2026-03-01T00:00:00Z'')],
           bare_tags ''temperature'')]"
  by code_simp

section \<open>Properties of the writer adapter\<close>

text \<open>
  C10. With the writer credentials configured, \<open>write_to_influx\<close> on an empty list makes no
  write call and returns 0; on a non-empty list it hands the writer one \<open>Point\<close> per input
  tuple, in order, in a single call, and returns the number of tuples it was given (unless
  the write call itself raises, and then that exception is the outcome).
\<close>

theorem write_to_influx_count:
  assumes "env_set (influx_token cfg)" and "influx_org cfg \<noteq> []" and "influx_bucket cfg \<noteq> []"
  shows "(points = [] \<longrightarrow> write_to_influx cfg lib co w points = (w, Inr 0))
       \<and> (points \<noteq> [] \<longrightarrow>
            fst (write_to_influx cfg lib co w points) =
              w\<lparr>influx_log := influx_log w @ [map (to_influx_point lib) points]\<rparr>
            \<and> snd (write_to_influx cfg lib co w points) =
              (case influx_write co (length (influx_log w)) (map (to_influx_point lib) points) of
                 None \<Rightarrow> Inr (length points)
               | Some e \<Rightarrow> Inl e))"
  using assms by (simp add: write_to_influx_def Let_def split: option.split)


theorem write_to_influx_count_witness:
  "(env_set (influx_token test_config) \<and> influx_org test_config \<noteq> []
      \<and> influx_bucket test_config \<noteq> [])
   \<and> write_to_influx test_config text_lib (canned_collaborators []) empty_world [] =
       (empty_world, Inr 0)
   \<and> snd (write_to_influx test_config text_lib (canned_collaborators []) empty_world
         [(''2026-03-01T10:00:00Z'', [(''value'', JFloat (Finite 18))], bare_tags ''temperature''),
          (''2026-03-01T11:00:00Z'', [(''value'', JFloat (Finite 19))], bare_tags ''temperature'')]) =
       Inr 2"
proof -
  have c: "env_set (influx_token test_config) \<and> influx_org test_config \<noteq> []
      \<and> influx_bucket test_config \<noteq> []"
    by (simp add: test_config_def env_set_def)
  have 1: "write_to_influx test_config text_lib (canned_collaborators []) empty_world [] =
       (empty_world, Inr 0)"
    using write_to_influx_count [of test_config "[]" text_lib "canned_collaborators []" empty_world] c
    by simp
  have 2: "snd (write_to_influx test_config text_lib (canned_collaborators []) empty_world
         [(''2026-03-01T10:00:00Z'', [(''value'', JFloat (Finite 18))], bare_tags ''temperature''),
          (''2026-03-01T11:00:00Z'', [(''value'', JFloat (Finite 19))], bare_tags ''temperature'')]) =
       Inr 2"
    using write_to_influx_count [of test_config
         "[(''2026-03-01T10:00:00Z'', [(''value'', JFloat (Finite 18))], bare_tags ''temperature''),
          (''2026-03-01T11:00:00Z'', [(''value'', JFloat (Finite 19))], bare_tags ''temperature'')]"
         text_lib "canned_collaborators []" empty_world] c
    by (simp add: canned_collaborators_def)
  from c 1 2 show ?thesis by blast
qed

section \<open>Properties of the place resolver\<close>

lemma exact_matches_filter:
  assumes "\<forall>f \<in> set fs. \<exists>n. feature_name f = Inr n"
  shows "exact_matches q fs = Inr (filter (\<lambda>f. feature_name f = Inr q) fs)"
  using assms by (induction fs) auto

lemma find_filter: "List.find P xs = (case filter P xs of [] \<Rightarrow> None | x # _ \<Rightarrow> Some x)"
  by (induction xs) auto

text \<open>
  C9. Over a list of features whose names can be normalized, \<open>pick_best_feature\<close> returns
  the first feature whose normalized name equals the normalized query, if there is one;
  otherwise the first feature of the list; and \<open>None\<close> for the empty list. For the query
  \<open>vigo\<close> and features named \<open>Vigo (Centro)\<close> and \<open>Vigo\<close> it returns the one named \<open>Vigo\<close>.
\<close>

theorem pick_best_feature_exact:
  assumes "\<forall>f \<in> set fs. \<exists>n. feature_name f = Inr n"
  shows "pick_best_feature query (JArr fs) =
           Inr (case List.find (\<lambda>f. feature_name f = Inr (normalize_query query)) fs of
                  Some x \<Rightarrow> x
                | None \<Rightarrow> (case fs of f # _ \<Rightarrow> f | [] \<Rightarrow> JNull))"
  using exact_matches_filter [OF assms, of "normalize_query query"]
  by (simp add: pick_best_feature_def find_filter split: list.split)

lemma vigo_names:
  "feature_name (named_feature ''Vigo (Centro)'') = Inr ''vigo (centro)''"
  "feature_name (named_feature ''Vigo'') = Inr ''vigo''"
  "normalize_query ''vigo'' = ''vigo''"
  by code_simp+

theorem pick_best_feature_exact_witness:
  "feature_name (named_feature ''Vigo (Centro)'') = Inr ''vigo (centro)''
   \<and> feature_name (named_feature ''Vigo'') = Inr ''vigo''
   \<and> pick_best_feature ''vigo'' (JArr [named_feature ''Vigo (Centro)'', named_feature ''Vigo''])
       = Inr (named_feature ''Vigo'')
   \<and> pick_best_feature ''lugo'' (JArr [named_feature ''Vigo (Centro)'', named_feature ''Vigo''])
       = Inr (named_feature ''Vigo (Centro)'')"
proof -
  have h: "\<forall>f \<in> set [named_feature ''Vigo (Centro)'', named_feature ''Vigo''].
       \<exists>n. feature_name f = Inr n"
    by (simp add: vigo_names)
  have l: "normalize_query ''lugo'' = ''lugo''" by code_simp
  have 1: "pick_best_feature ''vigo'' (JArr [named_feature ''Vigo (Centro)'', named_feature ''Vigo''])
       = Inr (named_feature ''Vigo'')"
    using pick_best_feature_exact [OF h, of "''vigo''"] by (simp add: vigo_names)
  have 2: "pick_best_feature ''lugo'' (JArr [named_feature ''Vigo (Centro)'', named_feature ''Vigo''])
       = Inr (named_feature ''Vigo (Centro)'')"
    using pick_best_feature_exact [OF h, of "''lugo''"] by (simp add: vigo_names l)
  from vigo_names(1,2) 1 2 show ?thesis by blast
qed

lemma pick_best_feature_empty: "pick_best_feature query (JArr []) = Inr JNull"
  by (simp add: pick_best_feature_def)

lemma find_places_searches:
  assumes "normalize_query q \<noteq> key"
  shows "searches_for key (http_log (fst (find_places cfg co w q types))) =
         searches_for key (http_log w)"
  using assms
  by (simp add: find_places_def Let_def searches_for_def find_places_params_def
      split: sum.split)

lemma cached_id_update:
  "k \<noteq> key \<Longrightarrow> cached_id (AList.update k v out) key = cached_id out key"
  by (simp add: cached_id_def update_conv')

lemma resolve_one_cached:
  assumes "cached_id out (normalize_query q) = Inr True"
  shows "resolve_one cfg co types (w, out) q = (w, Inr out)"
  using assms by (simp add: resolve_one_def)

lemma resolve_one_other:
  assumes "normalize_query q \<noteq> key"
    and "resolve_one cfg co types (w, out) q = (w', r)"
  shows "searches_for key (http_log w') = searches_for key (http_log w)
         \<and> (\<forall>out'. r = Inr out' \<longrightarrow>
               map_of out' key = map_of out key \<and> cached_id out' key = cached_id out key)"
proof (cases "cached_id out (normalize_query q)")
  case (Inl e)
  with assms(2) show ?thesis by (auto simp: resolve_one_def)
next
  case (Inr b)
  show ?thesis
  proof (cases b)
    case True
    with Inr assms(2) show ?thesis by (auto simp: resolve_one_def)
  next
    case False
    obtain w1 r1 where fp: "find_places cfg co w q types = (w1, r1)" by (cases "find_places cfg co w q types")
    have s1: "searches_for key (http_log w1) = searches_for key (http_log w)"
      using find_places_searches [OF assms(1), of cfg co w types] fp by simp
    from Inr False fp assms(2) have
      "http_log w' = http_log w1 \<and>
       (\<forall>out'. r = Inr out' \<longrightarrow> (\<exists>entry. out' = AList.update (normalize_query q) entry out))"
      by (auto simp: resolve_one_def Let_def split: sum.splits if_splits prod.splits)
    then show ?thesis
      using s1 assms(1) by (auto simp: cached_id_update update_conv')
  qed
qed

lemma resolve_loop_frame:
  assumes "cached_id out key = Inr True"
    and "resolve_loop cfg co types (w, out) qs = (w', r)"
  shows "searches_for key (http_log w') = searches_for key (http_log w)
         \<and> (\<forall>out'. r = Inr out' \<longrightarrow> map_of out' key = map_of out key)"
  using assms
proof (induction qs arbitrary: w out)
  case Nil
  then show ?case by auto
next
  case (Cons q qs)
  obtain w1 r1 where one: "resolve_one cfg co types (w, out) q = (w1, r1)"
    by (cases "resolve_one cfg co types (w, out) q")
  have step: "searches_for key (http_log w1) = searches_for key (http_log w)
         \<and> (\<forall>out'. r1 = Inr out' \<longrightarrow>
               map_of out' key = map_of out key \<and> cached_id out' key = cached_id out key)"
  proof (cases "normalize_query q = key")
    case True
    with Cons.prems(1) one show ?thesis by (auto simp: resolve_one_cached)
  next
    case False
    then show ?thesis using one by (rule resolve_one_other)
  qed
  show ?case
  proof (cases r1)
    case (Inl e)
    with Cons.prems(2) one step show ?thesis by auto
  next
    case (Inr out1)
    with Cons.prems(2) one have "resolve_loop cfg co types (w1, out1) qs = (w', r)" by simp
    moreover from Inr step Cons.prems(1) have "cached_id out1 key = Inr True" by simp
    ultimately have "searches_for key (http_log w') = searches_for key (http_log w1)
         \<and> (\<forall>out'. r = Inr out' \<longrightarrow> map_of out' key = map_of out1 key)"
      using Cons.IH by blast
    with step Inr show ?thesis by simp
  qed
qed


lemma find_places_Inr:
  assumes "find_places cfg co w q types = (w1, Inr data)"
  shows "http_get co (length (http_log w)) FindPlaces (find_places_params cfg q types) = Inr data"
  using assms by (auto simp: find_places_def Let_def split: if_splits sum.splits)

lemma resolved_entry_id:
  assumes "resolved_entry q best = Inr (place_id, entry)"
  shows "py_get entry ''id'' = Inr (JStr place_id)"
  using assms by (auto simp: resolved_entry_def Let_def bind_err_eq_Inr)

lemma resolve_one_writes:
  assumes "resolve_one cfg co types (w, out) q = (w', Inr out')"
  shows "out' = out \<or>
         (\<exists>data fs best.
            http_get co (length (http_log w)) FindPlaces (find_places_params cfg q types) = Inr data
            \<and> py_get data ''features'' = Inr fs
            \<and> pick_best_feature q (py_or fs (JArr [])) = Inr best
            \<and> (if truthy best
                then \<exists>place_id entry. out' = AList.update (normalize_query q) entry out
                       \<and> py_get entry ''id'' = Inr (JStr place_id)
                else out' = AList.update (normalize_query q)
                              (JObj [(''id'', JNull), (''query'', JStr q)]) out))"
proof (cases "cached_id out (normalize_query q)")
  case (Inl e)
  with assms show ?thesis by (auto simp: resolve_one_def)
next
  case (Inr b)
  show ?thesis
  proof (cases b)
    case True
    with Inr assms show ?thesis by (auto simp: resolve_one_def)
  next
    case False
    obtain w1 r1 where fp: "find_places cfg co w q types = (w1, r1)"
      by (cases "find_places cfg co w q types")
    with Inr False assms obtain data where r1: "r1 = Inr data"
      by (cases r1) (auto simp: resolve_one_def)
    have get: "http_get co (length (http_log w)) FindPlaces (find_places_params cfg q types) = Inr data"
      using fp r1 by (simp add: find_places_Inr)
    from Inr False assms fp r1 obtain fs best where
      fs: "py_get data ''features'' = Inr fs"
      and best: "pick_best_feature q (py_or fs (JArr [])) = Inr best"
      by (cases "py_get data ''features''";
          cases "pick_best_feature q (py_or (projr (py_get data ''features'')) (JArr []))")
         (auto simp: resolve_one_def)
    show ?thesis
    proof (cases "truthy best")
      case t: True
      with Inr False assms fp r1 fs best obtain place_id entry where
        re: "resolved_entry q best = Inr (place_id, entry)"
        and upd: "out' = AList.update (normalize_query q) entry out"
        by (cases "resolved_entry q best") (auto simp: resolve_one_def)
      have "py_get entry ''id'' = Inr (JStr place_id)" using re by (rule resolved_entry_id)
      with upd have "\<exists>place_id entry. out' = AList.update (normalize_query q) entry out
                       \<and> py_get entry ''id'' = Inr (JStr place_id)" by blast
      with get fs best t show ?thesis by auto
    next
      case f: False
      with Inr False assms fp r1 fs best have
        "out' = AList.update (normalize_query q) (JObj [(''id'', JNull), (''query'', JStr q)]) out"
        by (auto simp: resolve_one_def)
      then show ?thesis using get fs best f by auto
    qed
  qed
qed

text \<open>
  C8 (as amended). When the loaded cache maps the normalized form of a query to an entry
  whose id is not empty (truthy), \<open>resolve_place_ids\<close> sends no place-search request for
  that query, and the mapping it returns and saves holds that entry unchanged. An entry
  written by the loop has a null id only when no feature was selected
  (\<open>pick_best_feature\<close> returned \<open>None\<close> or an empty feature); otherwise its id is a
  string.
\<close>

theorem cached_place_reused:
  "(cached_id (load_json (places_file w)) key = Inr True
      \<and> resolve_place_ids cfg co w place_queries types = (w', r) \<longrightarrow>
    searches_for key (http_log w') = searches_for key (http_log w)
    \<and> (\<forall>out. r = Inr out \<longrightarrow>
          map_of out key = map_of (load_json (places_file w)) key \<and> places_file w' = Some out))
   \<and> (resolve_one cfg co types (w1, out1) q = (w2, Inr out2) \<longrightarrow>
        out2 = out1 \<or>
        (\<exists>data fs best.
            http_get co (length (http_log w1)) FindPlaces (find_places_params cfg q types) = Inr data
            \<and> py_get data ''features'' = Inr fs
            \<and> pick_best_feature q (py_or fs (JArr [])) = Inr best
            \<and> (if truthy best
                then \<exists>place_id entry. out2 = AList.update (normalize_query q) entry out1
                       \<and> py_get entry ''id'' = Inr (JStr place_id)
                else out2 = AList.update (normalize_query q)
                              (JObj [(''id'', JNull), (''query'', JStr q)]) out1)))"
proof (intro conjI impI)
  assume a: "cached_id (load_json (places_file w)) key = Inr True
      \<and> resolve_place_ids cfg co w place_queries types = (w', r)"
  obtain wl rl where
    l: "resolve_loop cfg co types (w, load_json (places_file w)) place_queries = (wl, rl)"
    by (cases "resolve_loop cfg co types (w, load_json (places_file w)) place_queries")
  have frame: "searches_for key (http_log wl) = searches_for key (http_log w)
         \<and> (\<forall>out'. rl = Inr out' \<longrightarrow> map_of out' key = map_of (load_json (places_file w)) key)"
    using a l resolve_loop_frame [of "load_json (places_file w)" key cfg co types w place_queries wl rl]
    by simp
  show "searches_for key (http_log w') = searches_for key (http_log w)"
    using a l frame by (cases rl) (auto simp: resolve_place_ids_def)
  show "\<forall>out. r = Inr out \<longrightarrow>
          map_of out key = map_of (load_json (places_file w)) key \<and> places_file w' = Some out"
    using a l frame by (cases rl) (auto simp: resolve_place_ids_def)
next
  assume "resolve_one cfg co types (w1, out1) q = (w2, Inr out2)"
  then show "out2 = out1 \<or>
        (\<exists>data fs best.
            http_get co (length (http_log w1)) FindPlaces (find_places_params cfg q types) = Inr data
            \<and> py_get data ''features'' = Inr fs
            \<and> pick_best_feature q (py_or fs (JArr [])) = Inr best
            \<and> (if truthy best
                then \<exists>place_id entry. out2 = AList.update (normalize_query q) entry out1
                       \<and> py_get entry ''id'' = Inr (JStr place_id)
                else out2 = AList.update (normalize_query q)
                              (JObj [(''id'', JNull), (''query'', JStr q)]) out1))"
    by (rule resolve_one_writes)
qed


lemma cached_vigo: "cached_id (load_json (places_file (cached_world (JStr ''36057'')))) ''vigo'' = Inr True"
  by code_simp

lemma lugo_searched:
  "searches_for ''lugo''
     (http_log (fst (resolve_place_ids test_config (canned_collaborators [search_result ''Lugo''])
                       (cached_world (JStr ''36057'')) [''  Vigo'', ''lugo''] ''locality''))) = 1"
  by code_simp

lemma vigo_lugo_result:
  "snd vigo_lugo_run =
     Inr [(''vigo'', JObj [(''query'', JStr ''Vigo''), (''id'', JStr ''36057''),
                           (''name'', JStr ''Vigo'')]),
          (''lugo'', JObj [(''query'', JStr ''lugo''), (''id'', JStr ''Lugo''),
                           (''name'', JStr ''Lugo''), (''municipality'', JNull),
                           (''province'', JNull), (''type'', JNull)])]"
  by code_simp

theorem cached_place_reused_witness:
  "cached_id (load_json (places_file (cached_world (JStr ''36057'')))) ''vigo'' = Inr True
   \<and> searches_for ''vigo'' (http_log (fst vigo_lugo_run)) =
       searches_for ''vigo'' (http_log (cached_world (JStr ''36057'')))
   \<and> map_of [(''vigo'', JObj [(''query'', JStr ''Vigo''), (''id'', JStr ''36057''),
                               (''name'', JStr ''Vigo'')]),
              (''lugo'', JObj [(''query'', JStr ''lugo''), (''id'', JStr ''Lugo''),
                               (''name'', JStr ''Lugo''), (''municipality'', JNull),
                               (''province'', JNull), (''type'', JNull)])] ''vigo'' =
       map_of (load_json (places_file (cached_world (JStr ''36057'')))) ''vigo''
   \<and> places_file (fst vigo_lugo_run) =
       Some [(''vigo'', JObj [(''query'', JStr ''Vigo''), (''id'', JStr ''36057''),
                              (''name'', JStr ''Vigo'')]),
             (''lugo'', JObj [(''query'', JStr ''lugo''), (''id'', JStr ''Lugo''),
                              (''name'', JStr ''Lugo''), (''municipality'', JNull),
                              (''province'', JNull), (''type'', JNull)])]
   \<and> searches_for ''lugo'' (http_log (fst vigo_lugo_run)) = 1"
proof -
  have r: "resolve_place_ids test_config (canned_collaborators [search_result ''Lugo''])
             (cached_world (JStr ''36057'')) [''  Vigo'', ''lugo''] ''locality'' =
           (fst vigo_lugo_run, snd vigo_lugo_run)"
    by (simp add: vigo_lugo_run_def)
  have l: "searches_for ''lugo'' (http_log (fst vigo_lugo_run)) = 1"
    using lugo_searched by (simp add: vigo_lugo_run_def)
  from cached_place_reused [of "cached_world (JStr ''36057'')" "''vigo''" test_config
      "canned_collaborators [search_result ''Lugo'']" "[''  Vigo'', ''lugo'']" "''locality''"
      "fst vigo_lugo_run" "snd vigo_lugo_run"] cached_vigo r vigo_lugo_result l
  show ?thesis by simp
qed

text \<open>
  C8 as stated fails for an id that is not null but empty, which is what the resolver
  itself stores for a feature without an id: the query is searched again and its entry
  overwritten.
\<close>

theorem blank_id_searched_again_counterexample:
  "py_get (JObj [(''query'', JStr ''Vigo''), (''id'', JStr []), (''name'', JStr ''Vigo'')]) ''id''
     = Inr (JStr [])
   \<and> searches_for ''vigo'' (http_log (cached_world (JStr []))) = 0
   \<and> searches_for ''vigo''
        (http_log (fst (resolve_place_ids test_config (canned_collaborators [search_result ''Vigo''])
                          (cached_world (JStr [])) [''vigo''] ''locality''))) = 1
   \<and> snd (resolve_place_ids test_config (canned_collaborators [search_result ''Vigo''])
             (cached_world (JStr [])) [''vigo''] ''locality'') =
       Inr [(''vigo'', JObj [(''query'', JStr ''vigo''), (''id'', JStr ''Vigo''),
                             (''name'', JStr ''Vigo''), (''municipality'', JNull),
                             (''province'', JNull), (''type'', JNull)])]"
  by code_simp

section \<open>Properties of the run\<close>


lemma request_forecast_exception:
  assumes "env_set (api_key cfg)"
    and "http_get co (length (http_log w)) Forecast (forecast_params cfg batch variables) = Inr data"
    and "dict_has_key data ''exception''"
    and "py_get data ''exception'' = Inr ex"
  shows "request_forecast cfg co w batch variables =
           (w\<lparr>http_log := http_log w @ [(Forecast, forecast_params cfg batch variables)]\<rparr>,
            Inl (RuntimeError (ForecastException ex)))"
  using assms by (simp add: request_forecast_def Let_def)


text \<open>
  C4. When the forecast response is an object with an \<open>exception\<close> key, \<open>request_forecast\<close>
  raises, and the loop of \<open>run_etl\<close> ends there with that exception: no point is written,
  the ledger is neither extended nor overwritten, in memory or on disk, and no later batch
  is requested.
\<close>

theorem forecast_exception_aborts:
  assumes "env_set (api_key cfg)"
    and "http_get co (length (http_log w)) Forecast (forecast_params cfg batch variables)
           = Inr (JObj kvs)"
    and "map_of kvs ''exception'' = Some ex"
  shows "\<exists>w'. request_forecast cfg co w batch variables = (w', Inl (RuntimeError (ForecastException ex)))
           \<and> etl_loop cfg lib co variables (w, state, written) (batch # batches) =
               (w', Inl (RuntimeError (ForecastException ex)))
           \<and> influx_log w' = influx_log w
           \<and> state_file w' = state_file w
           \<and> stdout w' = stdout w
           \<and> http_log w' = http_log w @ [(Forecast, forecast_params cfg batch variables)]"
proof -
  let ?w' = "w\<lparr>http_log := http_log w @ [(Forecast, forecast_params cfg batch variables)]\<rparr>"
  have k: "dict_has_key (JObj kvs) ''exception''"
    using assms(3) by (simp add: map_of_eq_Some_iff image_iff) (metis fst_conv map_of_SomeD)
  have g: "py_get (JObj kvs) ''exception'' = Inr ex" using assms(3) by simp
  have r: "request_forecast cfg co w batch variables =
             (?w', Inl (RuntimeError (ForecastException ex)))"
    using request_forecast_exception [OF assms(1,2) k g] .
  then have "etl_loop cfg lib co variables (w, state, written) (batch # batches) =
               (?w', Inl (RuntimeError (ForecastException ex)))"
    by (simp add: etl_batch_def)
  with r show ?thesis by simp
qed



text \<open>
  With no ledger entry the same response is processed, and its malformed feature list
  raises: the skipped run above did not transform it.
\<close>

lemma malformed_response_processed:
  "snd (etl_batch test_config text_lib (canned_collaborators [Inr (JObj [(''features'', JInt 5)])])
          [''temperature''] (empty_world, [], 0) [''a'', ''b'']) = Inl TypeError"
  by (simp add: etl_batch_def request_forecast_def test_config_def env_set_def
      canned_collaborators_def empty_world_def Let_def py_or_def)

theorem forecast_exception_aborts_witness:
  "env_set (api_key test_config)
   \<and> http_get (canned_collaborators [Inr (JObj [(''exception'', JStr ''quota'')])] :: string collaborators)
        (length (http_log (empty_world :: string world))) Forecast
        (forecast_params test_config [''a'', ''b''] [''temperature'']) =
       Inr (JObj [(''exception'', JStr ''quota'')])
   \<and> map_of [(''exception'', JStr ''quota'')] ''exception'' = Some (JStr ''quota'')
   \<and> (\<exists>w'. request_forecast test_config
               (canned_collaborators [Inr (JObj [(''exception'', JStr ''quota'')])])
               (empty_world :: string world) [''a'', ''b''] [''temperature''] =
             (w', Inl (RuntimeError (ForecastException (JStr ''quota''))))
           \<and> etl_loop test_config text_lib
                (canned_collaborators [Inr (JObj [(''exception'', JStr ''quota'')])])
                [''temperature''] (empty_world, [], 0) [[''a'', ''b''], [''c'']] =
               (w', Inl (RuntimeError (ForecastException (JStr ''quota''))))
           \<and> influx_log w' = []
           \<and> state_file w' = None
           \<and> length (http_log w') = 1)"
proof -
  have h: "env_set (api_key test_config)"
    "http_get (canned_collaborators [Inr (JObj [(''exception'', JStr ''quota'')])] :: string collaborators)
        (length (http_log (empty_world :: string world))) Forecast
        (forecast_params test_config [''a'', ''b''] [''temperature'']) =
       Inr (JObj [(''exception'', JStr ''quota'')])"
    "map_of [(''exception'', JStr ''quota'')] ''exception'' = Some (JStr ''quota'')"
    by (simp_all add: test_config_def env_set_def canned_collaborators_def empty_world_def)
  from forecast_exception_aborts [OF h, of text_lib "[]" 0 "[[''c'']]"]
  obtain w' :: "string world" where
    "request_forecast test_config
               (canned_collaborators [Inr (JObj [(''exception'', JStr ''quota'')])])
               (empty_world :: string world) [''a'', ''b''] [''temperature''] =
             (w', Inl (RuntimeError (ForecastException (JStr ''quota''))))"
    and "etl_loop test_config text_lib
                (canned_collaborators [Inr (JObj [(''exception'', JStr ''quota'')])])
                [''temperature''] (empty_world, [], 0) [[''a'', ''b''], [''c'']] =
               (w', Inl (RuntimeError (ForecastException (JStr ''quota''))))"
    and "influx_log w' = influx_log (empty_world :: string world)"
    and "state_file w' = state_file (empty_world :: string world)"
    and "http_log w' = http_log (empty_world :: string world) @
           [(Forecast, forecast_params test_config [''a'', ''b''] [''temperature''])]"
    by blast
  then have "\<exists>w'. request_forecast test_config
               (canned_collaborators [Inr (JObj [(''exception'', JStr ''quota'')])])
               (empty_world :: string world) [''a'', ''b''] [''temperature''] =
             (w', Inl (RuntimeError (ForecastException (JStr ''quota''))))
           \<and> etl_loop test_config text_lib
                (canned_collaborators [Inr (JObj [(''exception'', JStr ''quota'')])])
                [''temperature''] (empty_world, [], 0) [[''a'', ''b''], [''c'']] =
               (w', Inl (RuntimeError (ForecastException (JStr ''quota''))))
           \<and> influx_log w' = []
           \<and> state_file w' = None
           \<and> length (http_log w') = 1"
    by (simp add: empty_world_def)
  with h show ?thesis by blast
qed

section \<open>Properties of the digest\<close>

lemma same_keys:
  assumes "distinct (map fst xs)" and "distinct (map fst ys)" and "length xs = length ys"
    and "\<forall>kv \<in> set xs. map_of ys (fst kv) \<noteq> None"
  shows "fst ` set xs = fst ` set ys"
proof (rule card_subset_eq)
  show "finite (fst ` set ys)" by simp
  show "fst ` set xs \<subseteq> fst ` set ys"
    using assms(4) by (auto simp: map_of_eq_None_iff)
  have "card (fst ` set xs) = length xs"
    using assms(1) distinct_card [of "map fst xs"] by simp
  moreover have "card (fst ` set ys) = length ys"
    using assms(2) distinct_card [of "map fst ys"] by simp
  ultimately show "card (fst ` set xs) = card (fst ` set ys)" using assms(3) by simp
qed

lemma sorted_keys_eq:
  assumes "distinct (map fst xs)" and "distinct (map fst ys)"
    and "fst ` set xs = fst ` set ys"
  shows "map fst (sort_key fst xs) = map fst (sort_key fst ys)"
proof (rule sorted_distinct_set_unique)
  show "sorted (map fst (sort_key fst xs))" by (rule sorted_sort_key)
  show "sorted (map fst (sort_key fst ys))" by (rule sorted_sort_key)
  show "distinct (map fst (sort_key fst xs))"
    using assms(1) by (simp add: distinct_map)
  show "distinct (map fst (sort_key fst ys))"
    using assms(2) by (simp add: distinct_map)
  show "set (map fst (sort_key fst xs)) = set (map fst (sort_key fst ys))"
    using assms(3) by simp
qed

lemma map_eq_by_keys:
  assumes "map fst sx = map fst sy"
    and "\<And>i. i < length sx \<Longrightarrow> g (snd (sx ! i)) = g (snd (sy ! i))"
  shows "map (\<lambda>kv. h (fst kv) @ g (snd kv)) sx = map (\<lambda>kv. h (fst kv) @ g (snd kv)) sy"
proof (rule nth_equalityI)
  from assms(1) have len: "length sx = length sy" by (metis length_map)
  then show "length (map (\<lambda>kv. h (fst kv) @ g (snd kv)) sx) =
             length (map (\<lambda>kv. h (fst kv) @ g (snd kv)) sy)" by simp
  fix i
  assume "i < length (map (\<lambda>kv. h (fst kv) @ g (snd kv)) sx)"
  then have i: "i < length sx" by simp
  with len have i': "i < length sy" by simp
  have "fst (sx ! i) = map fst sx ! i" using i by simp
  also have "\<dots> = map fst sy ! i" using assms(1) by simp
  also have "\<dots> = fst (sy ! i)" using i' by simp
  finally have "fst (sx ! i) = fst (sy ! i)" .
  with assms(2) [OF i] i i'
  show "map (\<lambda>kv. h (fst kv) @ g (snd kv)) sx ! i = map (\<lambda>kv. h (fst kv) @ g (snd kv)) sy ! i"
    by simp
qed

lemma key_reordered_dumps:
  "key_reordered a b \<Longrightarrow> json_dumps lib a = json_dumps lib b"
proof (induction a arbitrary: b)
  case (JArr xs)
  from JArr.prems obtain ys where b: "b = JArr ys" and rel: "list_all2 key_reordered xs ys"
    by (cases b) simp_all
  have "map (json_dumps lib) xs = map (json_dumps lib) ys"
  proof (rule nth_equalityI)
    show "length (map (json_dumps lib) xs) = length (map (json_dumps lib) ys)"
      using rel by (simp add: list_all2_lengthD)
    fix i
    assume "i < length (map (json_dumps lib) xs)"
    then have i: "i < length xs" by simp
    with rel have "key_reordered (xs ! i) (ys ! i)" by (simp add: list_all2_nthD)
    moreover have "xs ! i \<in> set xs" using i by simp
    ultimately have "json_dumps lib (xs ! i) = json_dumps lib (ys ! i)" by (rule JArr.IH [rotated])
    then show "map (json_dumps lib) xs ! i = map (json_dumps lib) ys ! i"
      using i rel by (simp add: list_all2_lengthD)
  qed
  with b show ?case by simp
next
  case (JObj xs)
  from JObj.prems obtain ys where b: "b = JObj ys"
    and dx: "distinct (map fst xs)" and dy: "distinct (map fst ys)"
    and len: "length xs = length ys"
    and rel: "\<forall>kv \<in> set xs. case map_of ys (fst kv) of None \<Rightarrow> False
                              | Some w \<Rightarrow> key_reordered (snd kv) w"
    by (cases b) simp_all
  have "\<forall>kv \<in> set xs. map_of ys (fst kv) \<noteq> None"
    using rel by (auto split: option.splits)
  with dx dy len have keys: "fst ` set xs = fst ` set ys" by (rule same_keys)
  let ?sx = "sort_key fst xs" and ?sy = "sort_key fst ys"
  have sk: "map fst ?sx = map fst ?sy" using dx dy keys by (rule sorted_keys_eq)
  have vals: "json_dumps lib (snd (?sx ! i)) = json_dumps lib (snd (?sy ! i))"
    if i: "i < length ?sx" for i
  proof -
    from sk have "length ?sx = length ?sy" by (metis length_map)
    with i have i': "i < length ?sy" by simp
    have mx: "?sx ! i \<in> set xs" using i by (metis nth_mem set_sort)
    have my: "?sy ! i \<in> set ys" using i' by (metis nth_mem set_sort)
    have "fst (?sx ! i) = map fst ?sx ! i" using i by simp
    also have "\<dots> = map fst ?sy ! i" using sk by simp
    also have "\<dots> = fst (?sy ! i)" using i' by simp
    finally have k: "fst (?sx ! i) = fst (?sy ! i)" .
    have "map_of ys (fst (?sy ! i)) = Some (snd (?sy ! i))"
      using dy my by (metis map_of_is_SomeI prod.collapse)
    with k have "map_of ys (fst (?sx ! i)) = Some (snd (?sy ! i))" by simp
    with rel mx have kr: "key_reordered (snd (?sx ! i)) (snd (?sy ! i))"
      by (auto split: option.splits)
    have sn: "snd (?sx ! i) \<in> Basic_BNFs.snds (?sx ! i)"
      by (cases "?sx ! i") simp
    from mx sn kr show ?thesis by (rule JObj.IH)
  qed
  have "map (\<lambda>kv. (encode_string (fst kv) @ '': '') @ json_dumps lib (snd kv)) ?sx =
        map (\<lambda>kv. (encode_string (fst kv) @ '': '') @ json_dumps lib (snd kv)) ?sy"
    using sk vals by (rule map_eq_by_keys)
  with b show ?case by simp
qed (cases b; simp)+

text \<open>
  C3. Two documents that differ only in the order of the keys inside objects have the
  same digest; every digest is a string of 64 characters; and reordering the elements of
  an array can change the digest (\<open>[1, 2]\<close> and \<open>[2, 1]\<close> have different digests).
\<close>

theorem stable_hash_properties:
  "(\<forall>a b. key_reordered a b \<longrightarrow> stable_hash lib a = stable_hash lib b)
   \<and> (\<forall>a. length (stable_hash lib a) = 64)
   \<and> stable_hash lib (JArr [JInt 1, JInt 2]) \<noteq> stable_hash lib (JArr [JInt 2, JInt 1])"
proof (intro conjI allI impI)
  fix a b
  assume "key_reordered a b"
  then show "stable_hash lib a = stable_hash lib b"
    by (simp add: stable_hash_def key_reordered_dumps [of a b lib])
next
  fix a
  obtain h0 h1 h2 h3 h4 h5 h6 h7 where
    "sha256 (utf8_encode (json_dumps lib a)) = (h0, h1, h2, h3, h4, h5, h6, h7)"
    by (metis prod.exhaust)
  then show "length (stable_hash lib a) = 64"
    by (simp add: stable_hash_def hexdigest_def hex_word_def)
next
  have d1: "json_dumps lib (JArr [JInt 1, JInt 2]) = ''[1, 2]''" by code_simp
  have d2: "json_dumps lib (JArr [JInt 2, JInt 1]) = ''[2, 1]''" by code_simp
  have h1: "hexdigest (sha256 (utf8_encode ''[1, 2]'')) =
      ''3a316d6d3226f84c1e46e4447fa8d5fd800bff4a1bc6498152523cd4a602b69b''"
    by code_simp
  have h2: "hexdigest (sha256 (utf8_encode ''[2, 1]'')) =
      ''22e7e927f66095ec7fff4b388f9d5f02bf47db28052a3ee866a29c168d4cc4e9''"
    by code_simp
  show "stable_hash lib (JArr [JInt 1, JInt 2]) \<noteq> stable_hash lib (JArr [JInt 2, JInt 1])"
    unfolding stable_hash_def d1 d2 h1 h2 by simp
qed


theorem stable_hash_properties_witness:
  "key_reordered
     (JObj [(''a'', JInt 1), (''b'', JObj [(''x'', JArr [JInt 1, JInt 2]), (''y'', JNull)])])
     (JObj [(''b'', JObj [(''y'', JNull), (''x'', JArr [JInt 1, JInt 2])]), (''a'', JInt 1)])
   \<and> stable_hash text_lib
        (JObj [(''a'', JInt 1), (''b'', JObj [(''x'', JArr [JInt 1, JInt 2]), (''y'', JNull)])]) =
       stable_hash text_lib
        (JObj [(''b'', JObj [(''y'', JNull), (''x'', JArr [JInt 1, JInt 2])]), (''a'', JInt 1)])"
proof -
  have k: "key_reordered
     (JObj [(''a'', JInt 1), (''b'', JObj [(''x'', JArr [JInt 1, JInt 2]), (''y'', JNull)])])
     (JObj [(''b'', JObj [(''y'', JNull), (''x'', JArr [JInt 1, JInt 2])]), (''a'', JInt 1)])"
    by simp
  with stable_hash_properties [of text_lib] show ?thesis by blast
qed

end
